theory Spec2Isabelle
  imports Complex_Main
begin

chapter \<open>The model of \<^verbatim>\<open>openquake/risklib/scientific.py\<close>\<close>

section \<open>Numbers and errors\<close>

text \<open>
  The module computes on Python and numpy floats. They are modelled as the reals they
  stand for (rounding is left out), and every exception of the source is a value
  \<open>Inl e\<close> of a result type. Two of these values are the model's own and no exception:
  \<open>NotANumber\<close> stands for a float result that is no real number, where numpy divides
  by zero without raising, and \<open>NoSuchObject\<close> for following a reference to an address
  that holds no object, which Python cannot do.
\<close>

datatype error =
    ValueError
  | ZeroDivisionError
  | AssertionError
  | IndexError
  | KeyError
  | TypeError
  | AttributeError
  | NotANumber
  | NoSuchObject

section \<open>Distributions: the survival function\<close>

text \<open>
  \<^verbatim>\<open>
  class DegenerateDistribution(Distribution):
      def survival(self, loss_ratio, mean, _stddev):
          return numpy.piecewise(
              loss_ratio, [loss_ratio > mean or not mean], [0, 1])
  \<close>
  \<^verbatim>\<open>numpy.piecewise(x, [c], [a, b])\<close> is \<open>a\<close> where the condition holds and the
  default \<open>b\<close> elsewhere; \<^verbatim>\<open>not mean\<close> is true of a number exactly when it is
  zero.
\<close>

definition DegenerateDistribution_survival :: "real \<Rightarrow> real \<Rightarrow> real \<Rightarrow> real" where
  "DegenerateDistribution_survival loss_ratio mean stddev =
     (if loss_ratio > mean \<or> mean = 0 then 0 else 1)"

text \<open>
  \<^verbatim>\<open>
  class LogNormalDistribution(Distribution):
      def survival(self, loss_ratio, mean, stddev):
          # scipy does not handle correctly the limit case stddev = 0.
          # In that case, when `mean` > 0 the survival function
          # approaches to a step function, otherwise (`mean` == 0) we
          # returns 0
          if stddev == 0:
              return numpy.piecewise(
                  loss_ratio, [loss_ratio > mean or not mean], [0, 1])
          variance = stddev ** 2.0
          sigma = numpy.sqrt(numpy.log((variance / mean ** 2.0) + 1.0))
          mu = mean ** 2.0 / numpy.sqrt(variance + mean ** 2.0)
          return stats.lognorm.sf(loss_ratio, sigma, scale=mu)
  \<close>
  The survival function of scipy's lognormal law is a library function: it is the
  parameter \<open>lognorm_sf\<close> (value, shape, scale). Dividing the variance by the square
  of a mean that is zero raises.
\<close>

definition LogNormalDistribution_survival ::
  "(real \<Rightarrow> real \<Rightarrow> real \<Rightarrow> real) \<Rightarrow> real \<Rightarrow> real \<Rightarrow> real \<Rightarrow> error + real" where
  "LogNormalDistribution_survival lognorm_sf loss_ratio mean stddev =
     (if stddev = 0 then Inr (if loss_ratio > mean \<or> mean = 0 then 0 else 1)
      else
        (let variance = stddev\<^sup>2 in
         if mean\<^sup>2 = 0 then Inl ZeroDivisionError
         else
           (let sigma = sqrt (ln ((variance / mean\<^sup>2) + 1));
                mu = mean\<^sup>2 / sqrt (variance + mean\<^sup>2)
            in Inr (lognorm_sf loss_ratio sigma mu))))"

section \<open>Inverting a loss curve: \<^verbatim>\<open>conditional_loss_ratio\<close>\<close>

text \<open>
  \<^verbatim>\<open>conditional_loss_ratio\<close> has a branch of its own for curves whose PoEs are not
  numbers, so its floats are modelled with that value: \<open>NaN\<close>, or \<open>Fin x\<close> for the
  real \<open>x\<close>. Every comparison with \<open>NaN\<close> is false, also equality, and arithmetic
  on it gives \<open>NaN\<close>. Dividing a Python float by zero raises.
\<close>

datatype pyfloat = NaN | Fin real

fun flt_lt :: "pyfloat \<Rightarrow> pyfloat \<Rightarrow> bool" where
  "flt_lt (Fin a) (Fin b) = (a < b)"
| "flt_lt _ _ = False"

definition flt_gt :: "pyfloat \<Rightarrow> pyfloat \<Rightarrow> bool" where
  "flt_gt a b = flt_lt b a"

fun flt_eq :: "pyfloat \<Rightarrow> pyfloat \<Rightarrow> bool" where
  "flt_eq (Fin a) (Fin b) = (a = b)"
| "flt_eq _ _ = False"

fun flt_sub :: "pyfloat \<Rightarrow> pyfloat \<Rightarrow> pyfloat" where
  "flt_sub (Fin a) (Fin b) = Fin (a - b)"
| "flt_sub _ _ = NaN"

fun flt_add :: "pyfloat \<Rightarrow> pyfloat \<Rightarrow> pyfloat" where
  "flt_add (Fin a) (Fin b) = Fin (a + b)"
| "flt_add _ _ = NaN"

fun flt_mul :: "pyfloat \<Rightarrow> pyfloat \<Rightarrow> pyfloat" where
  "flt_mul (Fin a) (Fin b) = Fin (a * b)"
| "flt_mul _ _ = NaN"

fun flt_div :: "pyfloat \<Rightarrow> pyfloat \<Rightarrow> error + pyfloat" where
  "flt_div a (Fin b) =
     (if b = 0 then Inl ZeroDivisionError
      else (case a of Fin x \<Rightarrow> Inr (Fin (x / b)) | NaN \<Rightarrow> Inr NaN))"
| "flt_div a NaN = Inr NaN"

text \<open>
  Python's sequence operations: \<^verbatim>\<open>xs[i]\<close> counts a negative index from the end and
  raises out of range; a slice \<^verbatim>\<open>xs[start:stop]\<close> clamps its bounds and never raises;
  \<^verbatim>\<open>a, b = xs\<close> raises unless \<^verbatim>\<open>xs\<close> has two elements; \<^verbatim>\<open>max\<close> of an empty
  list raises, and otherwise keeps the first element that no later one exceeds;
  \<^verbatim>\<open>x in xs\<close> holds of an element that is the object \<open>x\<close> itself or is
  \<^verbatim>\<open>==\<close> to it. The two tests differ only for a not-a-number, which is not equal to
  itself: the floats of the model have no identity, so \<open>py_in\<close> is the membership test
  for an \<open>x\<close> that is a number, and for a not-a-number that is a fresh object and no
  element of the list.
\<close>

definition py_index :: "'a list \<Rightarrow> int \<Rightarrow> error + 'a" where
  "py_index xs i =
     (if 0 \<le> i \<and> i < int (length xs) then Inr (xs ! nat i)
      else if i < 0 \<and> - int (length xs) \<le> i then Inr (xs ! nat (int (length xs) + i))
      else Inl IndexError)"

definition slice_bound :: "nat \<Rightarrow> int \<Rightarrow> nat" where
  "slice_bound n i = (if i < 0 then nat (max (int n + i) 0) else min (nat i) n)"

definition py_slice :: "'a list \<Rightarrow> int \<Rightarrow> int option \<Rightarrow> 'a list" where
  "py_slice xs start stop =
     (let n = length xs;
          lo = slice_bound n start;
          hi = (case stop of None \<Rightarrow> n | Some e \<Rightarrow> slice_bound n e)
      in take (hi - lo) (drop lo xs))"

fun unpack2 :: "'a list \<Rightarrow> error + ('a \<times> 'a)" where
  "unpack2 [a, b] = Inr (a, b)"
| "unpack2 _ = Inl ValueError"

fun py_max :: "pyfloat list \<Rightarrow> error + pyfloat" where
  "py_max [] = Inl ValueError"
| "py_max (x # xs) = Inr (foldl (\<lambda>m y. if flt_lt m y then y else m) x xs)"

definition py_in :: "pyfloat \<Rightarrow> pyfloat list \<Rightarrow> bool" where
  "py_in x xs = list_ex (\<lambda>y. flt_eq x y) xs"

text \<open>
  \<^verbatim>\<open>bisect.bisect_right(a, x)\<close> of the standard library:
  \<^verbatim>\<open>
  lo, hi = 0, len(a)
  while lo < hi:
      mid = (lo + hi) // 2
      if x < a[mid]: hi = mid
      else: lo = mid + 1
  return lo
  \<close>
\<close>

function bisect_right_loop :: "pyfloat list \<Rightarrow> pyfloat \<Rightarrow> nat \<Rightarrow> nat \<Rightarrow> nat" where
  "bisect_right_loop a x lo hi =
     (if lo < hi then
        (let mid = (lo + hi) div 2
         in if flt_lt x (a ! mid) then bisect_right_loop a x lo mid
            else bisect_right_loop a x (mid + 1) hi)
      else lo)"
  by pat_completeness auto
termination
  by (relation "measure (\<lambda>(a, x, lo, hi). hi - lo)") auto

declare bisect_right_loop.simps [simp del]

definition bisect_right :: "pyfloat list \<Rightarrow> pyfloat \<Rightarrow> nat" where
  "bisect_right a x = bisect_right_loop a x 0 (length a)"

text \<open>
  \<^verbatim>\<open>
  def conditional_loss_ratio(loss_ratios, poes, probability):
      rpoes = poes[::-1]
      if probability > poes[0]:  # max poes
          return 0.0
      elif probability < poes[-1]:  # min PoE
          return loss_ratios[-1]
      if probability in poes:
          return max([loss
                      for i, loss in enumerate(loss_ratios)
                      if probability == poes[i]])
      else:
          interval_index = bisect.bisect_right(rpoes, probability)

          if interval_index == len(poes):  # poes are all nan
              return float('nan')
          elif interval_index == 1:  # boundary case
              x1, x2 = poes[-2:]
              y1, y2 = loss_ratios[-2:]
          else:
              x1, x2 = poes[-interval_index-1:-interval_index + 1]
              y1, y2 = loss_ratios[-interval_index-1:-interval_index + 1]

          return (y2 - y1) / (x2 - x1) * (probability - x1) + y1
  \<close>
  The comprehension reads \<^verbatim>\<open>poes[i]\<close> for every index of \<^verbatim>\<open>loss_ratios\<close>, so it
  raises when \<^verbatim>\<open>loss_ratios\<close> is the longer list.
\<close>

definition matching_losses ::
  "pyfloat list \<Rightarrow> pyfloat list \<Rightarrow> pyfloat \<Rightarrow> error + pyfloat list" where
  "matching_losses loss_ratios poes probability =
     (if length loss_ratios > length poes then Inl IndexError
      else Inr (map fst (filter (\<lambda>(loss, poe). flt_eq probability poe)
                  (zip loss_ratios poes))))"

definition interpolate_between ::
  "pyfloat \<Rightarrow> pyfloat \<Rightarrow> pyfloat \<Rightarrow> pyfloat \<Rightarrow> pyfloat \<Rightarrow> error + pyfloat" where
  "interpolate_between x1 x2 y1 y2 probability =
     (case flt_div (flt_sub y2 y1) (flt_sub x2 x1) of
        Inl e \<Rightarrow> Inl e
      | Inr slope \<Rightarrow> Inr (flt_add (flt_mul slope (flt_sub probability x1)) y1))"

definition conditional_loss_ratio ::
  "pyfloat list \<Rightarrow> pyfloat list \<Rightarrow> pyfloat \<Rightarrow> error + pyfloat" where
  "conditional_loss_ratio loss_ratios poes probability =
     (let rpoes = rev poes in
      case py_index poes 0 of Inl e \<Rightarrow> Inl e | Inr poes_first \<Rightarrow>
       (if flt_gt probability poes_first then Inr (Fin 0)
        else (case py_index poes (-1) of Inl e \<Rightarrow> Inl e | Inr poes_last \<Rightarrow>
         (if flt_lt probability poes_last then py_index loss_ratios (-1)
          else if py_in probability poes then
            (case matching_losses loss_ratios poes probability of
               Inl e \<Rightarrow> Inl e
             | Inr losses \<Rightarrow> py_max losses)
          else
            (let interval_index = bisect_right rpoes probability in
             if interval_index = length poes then Inr NaN
             else
               (let (xs, ys) =
                      (if interval_index = 1
                       then (py_slice poes (-2) None, py_slice loss_ratios (-2) None)
                       else (py_slice poes (- int interval_index - 1)
                               (Some (- int interval_index + 1)),
                             py_slice loss_ratios (- int interval_index - 1)
                               (Some (- int interval_index + 1))))
                in (case unpack2 xs of Inl e \<Rightarrow> Inl e | Inr (x1, x2) \<Rightarrow>
                     (case unpack2 ys of Inl e \<Rightarrow> Inl e | Inr (y1, y2) \<Rightarrow>
                        interpolate_between x1 x2 y1 y2 probability))))))))"

section \<open>Event based loss curves\<close>

text \<open>
  \<^verbatim>\<open>numpy.linspace(start, stop, num)\<close> refuses a negative \<^verbatim>\<open>num\<close>, returns
  \<^verbatim>\<open>num\<close> points \<^verbatim>\<open>start + i * step\<close> with \<^verbatim>\<open>step = (stop - start) / (num - 1)\<close>,
  and writes \<^verbatim>\<open>stop\<close> itself into the last of them when there are two or more.
  \<^verbatim>\<open>numpy.max\<close> of an empty array raises.
\<close>

definition linspace :: "real \<Rightarrow> real \<Rightarrow> int \<Rightarrow> error + real list" where
  "linspace start stop num =
     (if num < 0 then Inl ValueError
      else
        (let n = nat num; step = (stop - start) / real (n - 1)
         in Inr (if n = 1 then [start]
                 else map (\<lambda>i. if i = n - 1 then stop else start + real i * step) [0..<n])))"

definition numpy_max :: "real list \<Rightarrow> error + real" where
  "numpy_max xs = (if xs = [] then Inl ValueError else Inr (Max (set xs)))"

text \<open>
  \<^verbatim>\<open>
  def build_poes(counts, nses):
      return 1. - numpy.exp(- numpy.array(counts, F32) / nses)

  def event_based(loss_values, ses_ratio, curve_resolution):
      reference_losses = numpy.linspace(
          0, numpy.max(loss_values), curve_resolution)
      # counts how many loss_values are bigger than the reference loss
      counts = [(loss_values > loss).sum() for loss in reference_losses]
      return numpy.array(
          [reference_losses, build_poes(counts, 1. / ses_ratio)])
  \<close>
  The two rows of the returned array are a pair. \<^verbatim>\<open>1. / ses_ratio\<close> raises at 0, so
  \<open>build_poes\<close> is never reached with \<open>nses = 0\<close> from here.
\<close>

definition build_poes :: "nat list \<Rightarrow> real \<Rightarrow> real list" where
  "build_poes counts nses = map (\<lambda>c. 1 - exp (- real c / nses)) counts"

definition event_based :: "real list \<Rightarrow> real \<Rightarrow> int \<Rightarrow> error + (real list \<times> real list)" where
  "event_based loss_values ses_ratio curve_resolution =
     (case numpy_max loss_values of Inl e \<Rightarrow> Inl e | Inr largest \<Rightarrow>
      (case linspace 0 largest curve_resolution of Inl e \<Rightarrow> Inl e
       | Inr reference_losses \<Rightarrow>
         (let counts = map (\<lambda>loss. length (filter (\<lambda>v. v > loss) loss_values))
                         reference_losses
          in if ses_ratio = 0 then Inl ZeroDivisionError
             else Inr (reference_losses, build_poes counts (1 / ses_ratio)))))"

section \<open>Fragility functions and scenario damage\<close>

text \<open>
  \<^verbatim>\<open>scipy.interpolate.interp1d(x, y)\<close> is a library class. Which arrays its constructor
  accepts depends on the version of the library (some refuse fewer than two points),
  so that check is a parameter \<open>interp1d_accepts\<close> of the functions that build one.
  With the default settings the constructor sorts the points by \<open>x\<close>, and a call raises
  outside the range of \<open>x\<close> and otherwise interpolates linearly between the two
  neighbours that \<^verbatim>\<open>searchsorted\<close> finds, the index clipped into
  \<^verbatim>\<open>[1, len(x) - 1]\<close>. The sort is taken to keep the order of equal \<open>x\<close>. Between two
  neighbours with the same \<open>x\<close> the library divides by zero without raising, and the
  result is no number: that is \<open>NotANumber\<close>. Called with an array, it checks the range
  of every entry before it computes one.
\<close>

definition interp1d_call :: "real list \<Rightarrow> real list \<Rightarrow> real \<Rightarrow> error + real" where
  "interp1d_call x y x_new =
     (let points = sort_key fst (zip x y);
          x = map fst points;
          y = map snd points
      in if x = [] \<or> x_new < hd x \<or> last x < x_new then Inl ValueError
         else
           (let hi = min (length x - 1) (max 1 (length (filter (\<lambda>v. v < x_new) x)));
                lo = hi - 1
            in if x ! hi - x ! lo = 0 then Inl NotANumber
               else Inr ((y ! hi - y ! lo) / (x ! hi - x ! lo) * (x_new - x ! lo) + y ! lo)))"

text \<open>
  \<^verbatim>\<open>
  class FragilityFunctionContinuous(object):
      def __init__(self, limit_state, mean, stddev):
          self.limit_state = limit_state
          self.mean = mean
          self.stddev = stddev

      def __call__(self, iml):
          variance = self.stddev ** 2.0
          sigma = numpy.sqrt(numpy.log(
              (variance / self.mean ** 2.0) + 1.0))
          mu = self.mean ** 2.0 / numpy.sqrt(
              variance + self.mean ** 2.0)
          return stats.lognorm.cdf(iml, sigma, scale=mu)
  \<close>
  The distribution function of scipy's lognormal law is the parameter \<open>lognorm_cdf\<close>
  (value, shape, scale).
\<close>

record FragilityFunctionContinuous =
  c_limit_state :: string
  c_mean :: real
  c_stddev :: real

definition FragilityFunctionContinuous_call ::
  "(real \<Rightarrow> real \<Rightarrow> real \<Rightarrow> real) \<Rightarrow> FragilityFunctionContinuous \<Rightarrow> real
     \<Rightarrow> error + real" where
  "FragilityFunctionContinuous_call lognorm_cdf self iml =
     (let variance = (c_stddev self)\<^sup>2 in
      if (c_mean self)\<^sup>2 = 0 then Inl ZeroDivisionError
      else
        (let sigma = sqrt (ln ((variance / (c_mean self)\<^sup>2) + 1));
             mu = (c_mean self)\<^sup>2 / sqrt (variance + (c_mean self)\<^sup>2)
         in Inr (lognorm_cdf iml sigma mu)))"

text \<open>
  \<^verbatim>\<open>
  class FragilityFunctionDiscrete(object):
      def __init__(self, limit_state, imls, poes, no_damage_limit=None):
          self.limit_state = limit_state
          self.imls = imls
          self.poes = poes
          self._interp = None
          self.no_damage_limit = no_damage_limit

      @property
      def interp(self):
          if self._interp is not None:
              return self._interp
          self._interp = interpolate.interp1d(self.imls, self.poes)
          return self._interp

      def __call__(self, iml):
          highest_iml = self.imls[-1]
          if self.no_damage_limit is not None and iml < self.no_damage_limit:
              return 0.
          # when the intensity measure level is above
          # the range, we use the highest one
          return self.interp(highest_iml if iml > highest_iml else iml)
  \<close>
  The interpolator is built at the first call that needs it and kept; keeping it
  changes no result, and the model builds it at each call.
\<close>

record FragilityFunctionDiscrete =
  d_limit_state :: string
  d_imls :: "real list"
  d_poes :: "real list"
  d_no_damage_limit :: "real option"

definition FragilityFunctionDiscrete_call ::
  "(real list \<Rightarrow> real list \<Rightarrow> bool) \<Rightarrow> FragilityFunctionDiscrete \<Rightarrow> real
     \<Rightarrow> error + real" where
  "FragilityFunctionDiscrete_call interp1d_accepts self iml =
     (case py_index (d_imls self) (-1) of Inl e \<Rightarrow> Inl e | Inr highest_iml \<Rightarrow>
       (if (case d_no_damage_limit self of None \<Rightarrow> False | Some l \<Rightarrow> iml < l) then Inr 0
        else if \<not> interp1d_accepts (d_imls self) (d_poes self) then Inl ValueError
        else interp1d_call (d_imls self) (d_poes self)
               (if iml > highest_iml then highest_iml else iml)))"

text \<open>
  Modelled from the spec: \<^verbatim>\<open>utils.pairwise\<close>, of \<^verbatim>\<open>openquake/risklib/utils.py\<close>, is
  not among the sources. The module uses it for ``a value and the next value in a
  sequence'', and the specification for ``pairwise differences'': it yields the pairs
  of consecutive elements, in order.
\<close>

fun pairwise :: "'a list \<Rightarrow> ('a \<times> 'a) list" where
  "pairwise (x # y # zs) = (x, y) # pairwise (y # zs)"
| "pairwise _ = []"

text \<open>
  \<^verbatim>\<open>
  def pairwise_diff(values):
      "Differences between a value and the next value in a sequence"
      return numpy.array([x - y for x, y in utils.pairwise(values)])

  def scenario_damage(fragility_functions, gmv):
      return pairwise_diff(
          [1] + [ff(gmv) for ff in fragility_functions] + [0])
  \<close>
  A fragility function is any callable; the first one that raises ends the call.
\<close>

definition pairwise_diff :: "real list \<Rightarrow> real list" where
  "pairwise_diff values = map (\<lambda>(x, y). x - y) (pairwise values)"

fun call_each :: "('a \<Rightarrow> error + 'b) list \<Rightarrow> 'a \<Rightarrow> error + 'b list" where
  "call_each [] x = Inr []"
| "call_each (f # fs) x =
     (case f x of Inl e \<Rightarrow> Inl e
      | Inr y \<Rightarrow> (case call_each fs x of Inl e \<Rightarrow> Inl e | Inr ys \<Rightarrow> Inr (y # ys)))"

definition scenario_damage ::
  "(real \<Rightarrow> error + real) list \<Rightarrow> real \<Rightarrow> error + real list" where
  "scenario_damage fragility_functions gmv =
     (case call_each fragility_functions gmv of Inl e \<Rightarrow> Inl e
      | Inr poes \<Rightarrow> Inr (pairwise_diff ([1] @ poes @ [0])))"

section \<open>Statistics: the mean curve\<close>

text \<open>
  \<^verbatim>\<open>
  def mean_curve(values, weights=None):
      if weights:
          weights = list(map(float, weights))
          assert abs(sum(weights) - 1.) < 1E-12, sum(weights) - 1.
      else:
          weights = [1. / len(values)] * len(values)
      if isinstance(values[0], (numpy.ndarray, list, tuple)):  # fast lane
          return numpy.average(values, axis=0, weights=weights)
      return sum(value * weight for value, weight in zip(values, weights))
  \<close>
  The values are a list of numbers or a list of arrays (the first value decides the
  lane). \<^verbatim>\<open>if weights:\<close> is false for \<^verbatim>\<open>None\<close> and for an empty list.
  \<^verbatim>\<open>numpy.average\<close> along the first axis refuses rows of different lengths, a weight
  vector of another length than the rows and weights that sum to zero, and divides the
  weighted sum of each coordinate by the sum of the weights; \<^verbatim>\<open>zip\<close> stops at the
  shorter list.
\<close>

datatype curve_values = Scalars "real list" | Arrays "real list list"

datatype curve_mean = Scalar real | Array "real list"

definition numpy_average :: "real list list \<Rightarrow> real list \<Rightarrow> error + real list" where
  "numpy_average rows weights =
     (if list_ex (\<lambda>row. length row \<noteq> length (hd rows)) rows then Inl ValueError
      else if length weights \<noteq> length rows then Inl ValueError
      else if sum_list weights = 0 then Inl ZeroDivisionError
      else Inr (map (\<lambda>j. sum_list (map2 (\<lambda>row w. row ! j * w) rows weights)
                          / sum_list weights)
                  [0..<length (hd rows)]))"

definition mean_curve :: "curve_values \<Rightarrow> real list option \<Rightarrow> error + curve_mean" where
  "mean_curve values weights =
     (let n = (case values of Scalars vs \<Rightarrow> length vs | Arrays rows \<Rightarrow> length rows);
          checked =
            (if weights \<noteq> None \<and> weights \<noteq> Some [] then
               (if \<bar>sum_list (the weights) - 1\<bar> < 1 / 10 ^ 12 then Inr (the weights)
                else Inl AssertionError)
             else if n = 0 then Inl ZeroDivisionError
             else Inr (replicate n (1 / real n)))
      in case checked of Inl e \<Rightarrow> Inl e | Inr ws \<Rightarrow>
        (if n = 0 then Inl IndexError
         else (case values of
                 Arrays rows \<Rightarrow>
                   (case numpy_average rows ws of Inl e \<Rightarrow> Inl e
                    | Inr avg \<Rightarrow> Inr (Array avg))
               | Scalars vs \<Rightarrow>
                   Inr (Scalar (sum_list (map2 (\<lambda>value weight. value * weight) vs ws))))))"

section \<open>Statistics: the quantile curve\<close>

text \<open>
  \<^verbatim>\<open>
  def quantile_curve(curves, quantile, weights=None):
      if weights is None:
          arr = numpy.array(curves).reshape(len(curves), -1)
          p = numpy.array(quantile)
          m = 0.4 + p * 0.2
          n = len(arr)
          aleph = n * p + m
          k = numpy.floor(aleph.clip(1, n - 1)).astype(int)
          gamma = (aleph - k).clip(0, 1)
          data = numpy.sort(arr, axis=0).transpose()
          return (1.0 - gamma) * data[:, k - 1] + gamma * data[:, k]

      # Each curve needs to be associated with a weight
      assert len(weights) == len(curves)
      weights = numpy.array(weights, dtype=numpy.float64)

      result_curve = []
      np_curves = numpy.array(curves).reshape(len(curves), -1)
      np_weights = numpy.array(weights)
      for poes in np_curves.transpose():
          sorted_poe_idxs = numpy.argsort(poes)
          sorted_weights = np_weights[sorted_poe_idxs]
          sorted_poes = poes[sorted_poe_idxs]
          cum_weights = numpy.cumsum(sorted_weights)
          result_curve.append(numpy.interp(quantile, cum_weights, sorted_poes))
      return numpy.array(result_curve)
  \<close>
  The curves are a list of rows. The numpy operations, as the function uses them:
  \<^verbatim>\<open>clip(lo, hi)\<close> is the minimum of \<^verbatim>\<open>hi\<close> and the maximum with \<^verbatim>\<open>lo\<close>; building
  the array and reshaping it to \<^verbatim>\<open>len(curves)\<close> rows refuses no row at all and rows of
  different lengths; \<^verbatim>\<open>sort(arr, axis=0)\<close> sorts each column; \<^verbatim>\<open>data[:, k]\<close> reads
  the entry \<open>k\<close> of every row, a negative \<open>k\<close> counting from the end, and raises when
  \<open>k\<close> is out of range; \<^verbatim>\<open>argsort\<close> is taken to keep the order of equal values;
  \<^verbatim>\<open>numpy.interp(x, xp, fp)\<close> returns the first value for an \<open>x\<close> below the first
  sample point and the last value for an \<open>x\<close> at or above the last one; between them
  it interpolates linearly from the last sample point that is not above \<open>x\<close> to the
  next one. It expects sample points in non-decreasing order, as cumulated weights that
  are not negative are, and documents no result for others.
\<close>

definition numpy_clip :: "real \<Rightarrow> real \<Rightarrow> real \<Rightarrow> real" where
  "numpy_clip a lo hi = min (max a lo) hi"

definition reshape_rows :: "real list list \<Rightarrow> error + (real list list \<times> nat)" where
  "reshape_rows curves =
     (if curves = [] then Inl ValueError
      else if list_ex (\<lambda>row. length row \<noteq> length (hd curves)) curves then Inl ValueError
      else Inr (curves, length (hd curves)))"

definition numpy_transpose :: "real list list \<Rightarrow> nat \<Rightarrow> real list list" where
  "numpy_transpose arr d = map (\<lambda>j. map (\<lambda>row. row ! j) arr) [0..<d]"

definition sort_axis0 :: "real list list \<Rightarrow> nat \<Rightarrow> real list list" where
  "sort_axis0 arr d = numpy_transpose (map sort (numpy_transpose arr d)) (length arr)"

definition column :: "real list list \<Rightarrow> nat \<Rightarrow> int \<Rightarrow> error + real list" where
  "column data n k =
     (if 0 \<le> k \<and> k < int n then Inr (map (\<lambda>row. row ! nat k) data)
      else if k < 0 \<and> - int n \<le> k then Inr (map (\<lambda>row. row ! nat (int n + k)) data)
      else Inl IndexError)"

definition numpy_interp :: "real \<Rightarrow> real list \<Rightarrow> real list \<Rightarrow> error + real" where
  "numpy_interp x xp fp =
     (if xp = [] \<or> length fp \<noteq> length xp then Inl ValueError
      else if x < hd xp then Inr (hd fp)
      else if last xp \<le> x then Inr (last fp)
      else
        (let j = length (takeWhile (\<lambda>v. v \<le> x) xp) - 1;
             slope = (fp ! (j + 1) - fp ! j) / (xp ! (j + 1) - xp ! j)
         in Inr (slope * (x - xp ! j) + fp ! j)))"

fun cumsum_from :: "real \<Rightarrow> real list \<Rightarrow> real list" where
  "cumsum_from acc [] = []"
| "cumsum_from acc (x # xs) = (acc + x) # cumsum_from (acc + x) xs"

fun each :: "('a \<Rightarrow> error + 'b) \<Rightarrow> 'a list \<Rightarrow> error + 'b list" where
  "each f [] = Inr []"
| "each f (x # xs) =
     (case f x of Inl e \<Rightarrow> Inl e
      | Inr y \<Rightarrow> (case each f xs of Inl e \<Rightarrow> Inl e | Inr ys \<Rightarrow> Inr (y # ys)))"

definition quantile_curve ::
  "real list list \<Rightarrow> real \<Rightarrow> real list option \<Rightarrow> error + real list" where
  "quantile_curve curves quantile weights =
     (case weights of
        None \<Rightarrow>
          (case reshape_rows curves of Inl e \<Rightarrow> Inl e | Inr (arr, d) \<Rightarrow>
            (let p = quantile;
                 m = 4 / 10 + p * (2 / 10);
                 n = length arr;
                 aleph = real n * p + m;
                 k = \<lfloor>numpy_clip aleph 1 (real n - 1)\<rfloor>;
                 gamma = numpy_clip (aleph - of_int k) 0 1;
                 data = numpy_transpose (sort_axis0 arr d) d
             in (case column data n (k - 1) of Inl e \<Rightarrow> Inl e | Inr lower \<Rightarrow>
                  (case column data n k of Inl e \<Rightarrow> Inl e | Inr upper \<Rightarrow>
                     Inr (map2 (\<lambda>a b. (1 - gamma) * a + gamma * b) lower upper)))))
      | Some ws \<Rightarrow>
          (if length ws \<noteq> length curves then Inl AssertionError
           else
             (case reshape_rows curves of Inl e \<Rightarrow> Inl e | Inr (np_curves, d) \<Rightarrow>
                each (\<lambda>poes.
                        (let sorted_pairs = sort_key fst (zip poes ws);
                             sorted_weights = map snd sorted_pairs;
                             sorted_poes = map fst sorted_pairs;
                             cum_weights = cumsum_from 0 sorted_weights
                         in numpy_interp quantile cum_weights sorted_poes))
                  (numpy_transpose np_curves d))))"

text \<open>
  The plotting-position estimate of the specification, in its words: for \<open>n\<close>
  observations, \<open>m = 0.4 + p * 0.2\<close>, \<open>aleph = n * p + m\<close>,
  \<open>k = floor (clip (aleph, 1, n - 1))\<close>, \<open>gamma = clip (aleph - k, 0, 1)\<close>, and the
  result is \<open>(1 - gamma) * sorted[k - 1] + gamma * sorted[k]\<close>. Here \<open>k\<close> is the rank
  of the lower of the two observations, counted from 1, so that \<open>sorted[k - 1]\<close> and
  \<open>sorted[k]\<close> are positions in the sorted array, counted from 0: for \<open>k = 1\<close> the two
  smallest values, at the positions 0 and 1.
\<close>

definition plotting_position_estimate :: "real list \<Rightarrow> real \<Rightarrow> real" where
  "plotting_position_estimate observations p =
     (let n = length observations;
          m = 4 / 10 + p * (2 / 10);
          aleph = real n * p + m;
          k = nat \<lfloor>min (max aleph 1) (real n - 1)\<rfloor>;
          gamma = min (max (aleph - real k) 0) 1;
          ordered = sort observations
      in (1 - gamma) * ordered ! (k - 1) + gamma * ordered ! k)"

section \<open>Vulnerability functions\<close>

subsection \<open>Objects, the store and the libraries\<close>

text \<open>
  A vulnerability function is an object that points to its distribution, another
  object, and \<^verbatim>\<open>apply_to\<close> works on a copy of its receiver. To tell the copy from the
  original, objects live in a store: a map from addresses to vulnerability functions, a
  map from addresses to distributions, and the next address that is free. The state of
  numpy's process-wide random generator is part of the store, since
  \<^verbatim>\<open>numpy.random.beta\<close> reads and advances it.

  Two library functions are parameters, collected in a record: which arrays the
  constructor of \<^verbatim>\<open>interp1d\<close> accepts, and \<^verbatim>\<open>numpy.random.beta\<close>, a function of the
  state of the generator and the two parameter arrays that returns the draws, or the
  error it raises, and the new state.
\<close>

type_synonym addr = nat
type_synonym matrix = "real list list"

record 'r library =
  interp1d_accepts :: "real list \<Rightarrow> real list \<Rightarrow> bool"
  random_beta :: "'r \<Rightarrow> real list \<Rightarrow> real list \<Rightarrow> (error + real list) \<times> 'r"

text \<open>
  \<^verbatim>\<open>
  class DegenerateDistribution(Distribution):
      def sample(self, means, _covs, _stddev, _idxs):
          return means

  @DISTRIBUTIONS.add('LN')
  class LogNormalDistribution(Distribution):
      def __init__(self, epsilons=None):
          self.epsilons = epsilons
          self.asset_idx = 0

  @DISTRIBUTIONS.add('BT')
  class BetaDistribution(Distribution):

  @DISTRIBUTIONS.add('PM')
  class DiscreteDistribution(Distribution):
      seed = None  # to be set
  \<close>
  A distribution object is one of the four classes. \<^verbatim>\<open>set_distribution\<close> gives each
  of them the attribute \<^verbatim>\<open>epsilons\<close>, a matrix (a list of rows) or \<^verbatim>\<open>None\<close>; the
  lognormal one has the counter \<^verbatim>\<open>asset_idx\<close> as well. \<^verbatim>\<open>DISTRIBUTIONS\<close> is a
  dictionary from the three registered names to the classes.
\<close>

datatype distribution =
    DegenerateDistribution (epsilons: "matrix option")
  | LogNormalDistribution (epsilons: "matrix option") (asset_idx: nat)
  | BetaDistribution (epsilons: "matrix option")
  | DiscreteDistribution (epsilons: "matrix option")

text \<open>
  The attributes of a vulnerability function: the six that the constructor receives
  (\<^verbatim>\<open>id\<close> is \<open>vf_id\<close>), and the four that \<^verbatim>\<open>init\<close> sets, which are \<^verbatim>\<open>None\<close> before.
  An interpolator is kept as the pair of arrays it was built from.
\<close>

record VulnerabilityFunction =
  vf_id :: string
  imt :: string
  imls :: "real list"
  mean_loss_ratios :: "real list"
  covs :: "real list"
  distribution_name :: string
  stddevs :: "real list option"
  mlr_i1d :: "(real list \<times> real list) option"
  covs_i1d :: "(real list \<times> real list) option"
  distribution :: "addr option"

record 'r store =
  vfs :: "addr \<Rightarrow> VulnerabilityFunction option"
  dists :: "addr \<Rightarrow> distribution option"
  next_addr :: addr
  random_state :: 'r

definition new_distribution :: "distribution \<Rightarrow> 'r store \<Rightarrow> addr \<times> 'r store" where
  "new_distribution d st =
     (next_addr st, st\<lparr>dists := (dists st)(next_addr st \<mapsto> d), next_addr := next_addr st + 1\<rparr>)"

definition new_object :: "VulnerabilityFunction \<Rightarrow> 'r store \<Rightarrow> addr \<times> 'r store" where
  "new_object vf st =
     (next_addr st, st\<lparr>vfs := (vfs st)(next_addr st \<mapsto> vf), next_addr := next_addr st + 1\<rparr>)"

definition DISTRIBUTIONS :: "string \<Rightarrow> error + distribution" where
  "DISTRIBUTIONS name =
     (if name = ''LN'' then Inr (LogNormalDistribution None 0)
      else if name = ''BT'' then Inr (BetaDistribution None)
      else if name = ''PM'' then Inr (DiscreteDistribution None)
      else Inl KeyError)"

subsection \<open>Construction\<close>

text \<open>
  \<^verbatim>\<open>
  def set_distribution(self, epsilons=None):
      if (self.covs > 0).any():
          self.distribution = DISTRIBUTIONS[self.distribution_name]()
      else:
          self.distribution = DegenerateDistribution()
      self.distribution.epsilons = (numpy.array(epsilons)
                                    if epsilons is not None else None)
  \<close>
  A new distribution object is made at each call, and the attribute of the function is
  bound to it; the object that was bound before is not touched. \<open>choose_distribution\<close>
  is the object that the conditional makes, and \<open>set_epsilons\<close> the assignment of its
  attribute.
\<close>

fun set_epsilons :: "distribution \<Rightarrow> matrix option \<Rightarrow> distribution" where
  "set_epsilons (DegenerateDistribution _) e = DegenerateDistribution e"
| "set_epsilons (LogNormalDistribution _ i) e = LogNormalDistribution e i"
| "set_epsilons (BetaDistribution _) e = BetaDistribution e"
| "set_epsilons (DiscreteDistribution _) e = DiscreteDistribution e"

definition choose_distribution :: "VulnerabilityFunction \<Rightarrow> error + distribution" where
  "choose_distribution vf =
     (if list_ex (\<lambda>c. c > 0) (covs vf) then DISTRIBUTIONS (distribution_name vf)
      else Inr (DegenerateDistribution None))"

definition set_distribution ::
  "'r store \<Rightarrow> addr \<Rightarrow> matrix option \<Rightarrow> (error + unit) \<times> 'r store" where
  "set_distribution st self eps =
     (case vfs st self of None \<Rightarrow> (Inl NoSuchObject, st) | Some vf \<Rightarrow>
       (case choose_distribution vf of
          Inl e \<Rightarrow> (Inl e, st)
        | Inr d \<Rightarrow>
            (let (a, st1) = new_distribution d st;
                 st2 = st1\<lparr>vfs := (vfs st1)(self \<mapsto> vf\<lparr>distribution := Some a\<rparr>)\<rparr>;
                 st3 = st2\<lparr>dists := (dists st2)(a \<mapsto> set_epsilons d eps)\<rparr>
             in (Inr (), st3))))"

text \<open>
  \<^verbatim>\<open>
  def init(self):
      self.stddevs = self.covs * self.mean_loss_ratios
      self._mlr_i1d = interpolate.interp1d(self.imls, self.mean_loss_ratios)
      self._covs_i1d = interpolate.interp1d(self.imls, self.covs)
      self.set_distribution(None)
  \<close>
  The product of two numpy arrays is taken entry by entry; an array of one entry is
  combined with every entry of the other, and other arrays of different lengths raise.
\<close>

definition numpy_multiply :: "real list \<Rightarrow> real list \<Rightarrow> error + real list" where
  "numpy_multiply xs ys =
     (if length xs = length ys then Inr (map2 (\<lambda>x y. x * y) xs ys)
      else if length xs = 1 then Inr (map (\<lambda>y. hd xs * y) ys)
      else if length ys = 1 then Inr (map (\<lambda>x. x * hd ys) xs)
      else Inl ValueError)"

definition init :: "'r library \<Rightarrow> 'r store \<Rightarrow> addr \<Rightarrow> (error + unit) \<times> 'r store" where
  "init lib st self =
     (case vfs st self of None \<Rightarrow> (Inl NoSuchObject, st) | Some vf \<Rightarrow>
       (case numpy_multiply (covs vf) (mean_loss_ratios vf) of
          Inl e \<Rightarrow> (Inl e, st)
        | Inr product \<Rightarrow>
          (let vf1 = vf\<lparr>stddevs := Some product\<rparr>;
               st1 = st\<lparr>vfs := (vfs st)(self \<mapsto> vf1)\<rparr>
           in if \<not> interp1d_accepts lib (imls vf) (mean_loss_ratios vf) then (Inl ValueError, st1)
              else
                (let vf2 = vf1\<lparr>mlr_i1d := Some (imls vf, mean_loss_ratios vf)\<rparr>;
                     st2 = st1\<lparr>vfs := (vfs st1)(self \<mapsto> vf2)\<rparr>
                 in if \<not> interp1d_accepts lib (imls vf) (covs vf) then (Inl ValueError, st2)
                    else
                      (let vf3 = vf2\<lparr>covs_i1d := Some (imls vf, covs vf)\<rparr>;
                           st3 = st2\<lparr>vfs := (vfs st2)(self \<mapsto> vf3)\<rparr>
                       in set_distribution st3 self None)))))"

text \<open>
  \<^verbatim>\<open>
  def _check_vulnerability_data(self, imls, loss_ratios, covs, distribution):
      assert_equal(imls, sorted(set(imls)))
      assert all(x >= 0.0 for x in imls)
      assert covs is None or len(covs) == len(imls)
      assert len(loss_ratios) == len(imls)
      assert all(x >= 0.0 for x in loss_ratios)
      assert covs is None or all(x >= 0.0 for x in covs)
      assert distribution in ["LN", "BT"]
  \<close>
  Every failure is an \<^verbatim>\<open>AssertionError\<close>, so the check is a predicate.
\<close>

definition check_vulnerability_data ::
  "real list \<Rightarrow> real list \<Rightarrow> real list option \<Rightarrow> string \<Rightarrow> bool" where
  "check_vulnerability_data imls' loss_ratios covs' distribution' =
     (imls' = sorted_list_of_set (set imls')
      \<and> list_all (\<lambda>x. x \<ge> 0) imls'
      \<and> (covs' = None \<or> length (the covs') = length imls')
      \<and> length loss_ratios = length imls'
      \<and> list_all (\<lambda>x. x \<ge> 0) loss_ratios
      \<and> (covs' = None \<or> list_all (\<lambda>x. x \<ge> 0) (the covs'))
      \<and> (distribution' = ''LN'' \<or> distribution' = ''BT''))"

text \<open>
  \<^verbatim>\<open>
  def __init__(self, vf_id, imt, imls, mean_loss_ratios, covs=None,
               distribution="LN"):
      self.id = vf_id
      self.imt = imt
      self._check_vulnerability_data(
          imls, mean_loss_ratios, covs, distribution)
      self.imls = numpy.array(imls)
      self.mean_loss_ratios = numpy.array(mean_loss_ratios)

      if covs is not None:
          self.covs = numpy.array(covs)
      else:
          self.covs = numpy.zeros(self.imls.shape)

      for lr, cov in zip(self.mean_loss_ratios, self.covs):
          if lr == 0.0 and cov > 0.0:
              msg = ("It is not valid to define a loss ratio = 0.0 with a "
                     "corresponding coeff. of variation > 0.0")
              raise ValueError(msg)

      self.distribution_name = distribution

      # to be set in .init(), called also by __setstate__
      (self.stddevs, self._mlr_i1d, self._covs_i1d,
       self.distribution) = None, None, None, None
      self.init()
  \<close>
  The call of the class returns the address of the new object. An object whose
  constructor raises is reachable from nowhere: the model puts it in the store when
  the checks have passed.
\<close>

definition VulnerabilityFunction_new ::
  "'r library \<Rightarrow> 'r store \<Rightarrow> string \<Rightarrow> string \<Rightarrow> real list \<Rightarrow> real list \<Rightarrow> real list option
     \<Rightarrow> string \<Rightarrow> (error + addr) \<times> 'r store" where
  "VulnerabilityFunction_new lib st vf_id' imt' imls' mean_loss_ratios' covs' distribution' =
     (if \<not> check_vulnerability_data imls' mean_loss_ratios' covs' distribution'
      then (Inl AssertionError, st)
      else
        (let covs_array = (case covs' of Some cs \<Rightarrow> cs | None \<Rightarrow> replicate (length imls') 0)
         in if list_ex (\<lambda>(lr, cov). lr = 0 \<and> cov > 0) (zip mean_loss_ratios' covs_array)
            then (Inl ValueError, st)
            else
              (let (self, st1) = new_object
                     \<lparr>vf_id = vf_id', imt = imt', imls = imls',
                      mean_loss_ratios = mean_loss_ratios', covs = covs_array,
                      distribution_name = distribution', stddevs = None, mlr_i1d = None,
                      covs_i1d = None, distribution = None\<rparr> st
               in case init lib st1 self of
                    (Inl e, st2) \<Rightarrow> (Inl e, st2)
                  | (Inr _, st2) \<Rightarrow> (Inr self, st2))))"

text \<open>
  \<^verbatim>\<open>
  def __getstate__(self):
      return (self.id, self.imt, self.imls, self.mean_loss_ratios,
              self.covs, self.distribution_name)

  def __setstate__(self, state):
      self.id = state[0]
      self.imt = state[1]
      self.imls = state[2]
      self.mean_loss_ratios = state[3]
      self.covs = state[4]
      self.distribution_name = state[5]
      self.init()
  \<close>
  \<^verbatim>\<open>copy.copy\<close> of an object whose class defines these two methods makes a new object
  of the class without calling the constructor and gives it the state of the original:
  the copy has the six attributes and what \<^verbatim>\<open>init\<close> builds from them, a distribution
  object of its own included.
\<close>

definition copy_copy :: "'r library \<Rightarrow> 'r store \<Rightarrow> addr \<Rightarrow> (error + addr) \<times> 'r store" where
  "copy_copy lib st self =
     (case vfs st self of None \<Rightarrow> (Inl NoSuchObject, st) | Some vf \<Rightarrow>
       (let (c, st1) = new_object
              \<lparr>vf_id = vf_id vf, imt = imt vf, imls = imls vf,
               mean_loss_ratios = mean_loss_ratios vf, covs = covs vf,
               distribution_name = distribution_name vf, stddevs = None, mlr_i1d = None,
               covs_i1d = None, distribution = None\<rparr> st
        in case init lib st1 c of
             (Inl e, st2) \<Rightarrow> (Inl e, st2)
           | (Inr _, st2) \<Rightarrow> (Inr c, st2)))"

subsection \<open>Applying a function to ground motion values\<close>

text \<open>
  An interpolator called with an array checks the range of every entry first.
\<close>

definition interp1d_call_array :: "real list \<Rightarrow> real list \<Rightarrow> real list \<Rightarrow> error + real list" where
  "interp1d_call_array x y xs_new =
     (if list_ex (\<lambda>v. interp1d_call x y v = Inl ValueError) xs_new then Inl ValueError
      else each (interp1d_call x y) xs_new)"

text \<open>
  \<^verbatim>\<open>
  def _cov_for(self, imls):
      return self._covs_i1d(
          numpy.piecewise(
              imls,
              [imls > self.imls[-1], imls < self.imls[0]],
              [self.imls[-1], self.imls[0], lambda x: x]))
  \<close>
  Where two conditions of \<^verbatim>\<open>numpy.piecewise\<close> hold, the later one decides. Calling
  an interpolator that is still \<^verbatim>\<open>None\<close> is a \<^verbatim>\<open>TypeError\<close>.
\<close>

definition cov_for :: "VulnerabilityFunction \<Rightarrow> real list \<Rightarrow> error + real list" where
  "cov_for vf xs =
     (case py_index (imls vf) (-1) of Inl e \<Rightarrow> Inl e | Inr highest \<Rightarrow>
       (case py_index (imls vf) 0 of Inl e \<Rightarrow> Inl e | Inr lowest \<Rightarrow>
         (case covs_i1d vf of None \<Rightarrow> Inl TypeError | Some (x, y) \<Rightarrow>
            interp1d_call_array x y
              (map (\<lambda>v. if v < lowest then lowest else if v > highest then highest else v) xs))))"

text \<open>
  \<^verbatim>\<open>
  class LogNormalDistribution(Distribution):
      def sample(self, means, covs, _stddevs, idxs):
          if self.epsilons is None:
              raise ValueError("A LogNormalDistribution must be initialized "
                               "before you can use it")
          eps = self.epsilons[self.asset_idx, idxs]
          self.asset_idx += 1
          sigma = numpy.sqrt(numpy.log(covs ** 2.0 + 1.0))
          probs = means / numpy.sqrt(1 + covs ** 2) * numpy.exp(eps * sigma)
          return probs

  class BetaDistribution(Distribution):
      def sample(self, means, _covs, stddevs, _idxs=None):
          alpha = self._alpha(means, stddevs)
          beta = self._beta(means, stddevs)
          return numpy.random.beta(alpha, beta, size=None)

      @staticmethod
      def _alpha(mean, stddev):
          return ((1 - mean) / stddev ** 2 - 1 / mean) * mean ** 2

      @staticmethod
      def _beta(mean, stddev):
          return ((1 - mean) / stddev ** 2 - 1 / mean) * (mean - mean ** 2)

  class DiscreteDistribution(Distribution):
      def sample(self, loss_ratios, probs):
  \<close>
  \<open>sample\<close> returns the losses or the error, the distribution object as the call
  leaves it, and the state of the generator. The lognormal distribution reads the row
  \<open>asset_idx\<close> of its epsilons at the columns \<open>idxs\<close> and moves to the next row;
  a row or a column that the matrix does not have is an \<^verbatim>\<open>IndexError\<close>, and so
  is every access when the rows differ in length, which numpy does not take for a
  matrix; it never reads the generator. The beta distribution ignores the epsilons and draws from
  the generator; where a mean or a standard deviation is zero its parameters are no
  numbers. The discrete distribution has a \<open>sample\<close> of two arguments, so the call with
  four is a \<^verbatim>\<open>TypeError\<close>. The arrays are combined entry by entry; \<^verbatim>\<open>_apply\<close>
  passes arrays of the same length.
\<close>

definition BetaDistribution_alpha :: "real \<Rightarrow> real \<Rightarrow> real" where
  "BetaDistribution_alpha mean stddev = ((1 - mean) / stddev\<^sup>2 - 1 / mean) * mean\<^sup>2"

definition BetaDistribution_beta :: "real \<Rightarrow> real \<Rightarrow> real" where
  "BetaDistribution_beta mean stddev = ((1 - mean) / stddev\<^sup>2 - 1 / mean) * (mean - mean\<^sup>2)"

fun sample ::
  "'r library \<Rightarrow> distribution \<Rightarrow> real list \<Rightarrow> real list \<Rightarrow> real list \<Rightarrow> nat list \<Rightarrow> 'r
     \<Rightarrow> (error + real list) \<times> distribution \<times> 'r" where
  "sample lib (DegenerateDistribution e) means cs sds idxs rng =
     (Inr means, DegenerateDistribution e, rng)"
| "sample lib (LogNormalDistribution e i) means cs sds idxs rng =
     (case e of
        None \<Rightarrow> (Inl ValueError, LogNormalDistribution e i, rng)
      | Some m \<Rightarrow>
          (if list_ex (\<lambda>row. length row \<noteq> length (hd m)) m
              \<or> i \<ge> length m \<or> list_ex (\<lambda>j. j \<ge> length (m ! i)) idxs
           then (Inl IndexError, LogNormalDistribution e i, rng)
           else
             (let eps = map (\<lambda>j. m ! i ! j) idxs
              in if length cs \<noteq> length means \<or> length eps \<noteq> length means
                 then (Inl ValueError, LogNormalDistribution e (i + 1), rng)
                 else
                   (Inr (map (\<lambda>(mean, c, ep).
                               mean / sqrt (1 + c\<^sup>2) * exp (ep * sqrt (ln (c\<^sup>2 + 1))))
                          (zip means (zip cs eps))),
                    LogNormalDistribution e (i + 1), rng))))"
| "sample lib (BetaDistribution e) means cs sds idxs rng =
     (if length sds \<noteq> length means then (Inl ValueError, BetaDistribution e, rng)
      else if list_ex (\<lambda>(mean, stddev). stddev\<^sup>2 = 0 \<or> mean = 0) (zip means sds)
      then (Inl NotANumber, BetaDistribution e, rng)
      else
        (let alpha = map2 BetaDistribution_alpha means sds;
             beta = map2 BetaDistribution_beta means sds;
             (r, rng') = random_beta lib rng alpha beta
         in (r, BetaDistribution e, rng')))"
| "sample lib (DiscreteDistribution e) means cs sds idxs rng =
     (Inl TypeError, DiscreteDistribution e, rng)"

text \<open>
  \<^verbatim>\<open>
  def _apply(self, imls):
      # for imls < min(iml) we return a loss of 0 (default)
      ret = numpy.zeros(len(imls))

      # imls are clipped to max(iml)
      imls_curve = numpy.piecewise(
          imls,
          [imls > self.imls[-1]],
          [self.imls[-1], lambda x: x])

      # for imls such that iml > min(iml) we get a mean loss ratio
      # by interpolation and sample the distribution
      idxs, = numpy.where(imls_curve >= self.imls[0])
      imls_curve = numpy.array(imls_curve)[idxs]
      means = self._mlr_i1d(imls_curve)

      # apply uncertainty
      covs = self._cov_for(imls_curve)
      ret[idxs] = self.distribution.sample(
          means, covs, covs * imls_curve, idxs)
      return ret
  \<close>
  \<open>scatter\<close> is the assignment \<^verbatim>\<open>ret[idxs] = ...\<close> to the array of zeros, and
  \<open>row_inputs\<close> the statements before the call of \<^verbatim>\<open>sample\<close>, with its four
  arguments as result; the two arrays of the product have the same length.
  \<open>apply_row\<close> is the method \<^verbatim>\<open>_apply\<close> as a function of the attributes of the
  object, of its distribution object and of the state of the generator; \<open>vf_apply\<close> is
  the method on the store, which reads the three and writes the last two back. An
  object that has no distribution yet raises \<^verbatim>\<open>AttributeError\<close> where the method
  \<^verbatim>\<open>sample\<close> is looked up.
\<close>

definition scatter :: "nat \<Rightarrow> nat list \<Rightarrow> real list \<Rightarrow> error + real list" where
  "scatter n idxs vals =
     (if length vals \<noteq> length idxs then Inl ValueError
      else Inr (fold (\<lambda>(i, v) ret. ret[i := v]) (zip idxs vals) (replicate n 0)))"

definition row_inputs ::
  "VulnerabilityFunction \<Rightarrow> real list \<Rightarrow> error + (real list \<times> real list \<times> real list \<times> nat list)" where
  "row_inputs vf xs =
     (case py_index (imls vf) (-1) of Inl e \<Rightarrow> Inl e | Inr highest \<Rightarrow>
       (let imls_curve = map (\<lambda>x. if x > highest then highest else x) xs
        in case py_index (imls vf) 0 of Inl e \<Rightarrow> Inl e | Inr lowest \<Rightarrow>
         (let idxs = filter (\<lambda>i. imls_curve ! i \<ge> lowest) [0..<length imls_curve];
              imls_curve = map (\<lambda>i. imls_curve ! i) idxs
          in case mlr_i1d vf of None \<Rightarrow> Inl TypeError | Some (x, y) \<Rightarrow>
            (case interp1d_call_array x y imls_curve of Inl e \<Rightarrow> Inl e
             | Inr means \<Rightarrow>
               (case cov_for vf imls_curve of Inl e \<Rightarrow> Inl e | Inr cs \<Rightarrow>
                  Inr (means, cs, map2 (\<lambda>c x. c * x) cs imls_curve, idxs))))))"

definition apply_row ::
  "'r library \<Rightarrow> VulnerabilityFunction \<Rightarrow> distribution \<Rightarrow> 'r \<Rightarrow> real list
     \<Rightarrow> (error + real list) \<times> distribution \<times> 'r" where
  "apply_row lib vf d rng xs =
     (case row_inputs vf xs of
        Inl e \<Rightarrow> (Inl e, d, rng)
      | Inr (means, cs, sds, idxs) \<Rightarrow>
          (case sample lib d means cs sds idxs rng of
             (Inl e, d', rng') \<Rightarrow> (Inl e, d', rng')
           | (Inr vals, d', rng') \<Rightarrow> (scatter (length xs) idxs vals, d', rng')))"

definition vf_apply ::
  "'r library \<Rightarrow> 'r store \<Rightarrow> addr \<Rightarrow> real list \<Rightarrow> (error + real list) \<times> 'r store" where
  "vf_apply lib st self xs =
     (case vfs st self of None \<Rightarrow> (Inl NoSuchObject, st) | Some vf \<Rightarrow>
       (case row_inputs vf xs of Inl e \<Rightarrow> (Inl e, st) | Inr inputs \<Rightarrow>
         (case distribution vf of None \<Rightarrow> (Inl AttributeError, st) | Some da \<Rightarrow>
           (case dists st da of None \<Rightarrow> (Inl NoSuchObject, st) | Some d \<Rightarrow>
             (let (r, d', rng') = apply_row lib vf d (random_state st) xs
              in (r, st\<lparr>dists := (dists st)(da \<mapsto> d'), random_state := rng'\<rparr>))))))"

text \<open>
  Modelled from the spec: \<^verbatim>\<open>utils.numpy_map\<close>, of \<^verbatim>\<open>openquake/risklib/utils.py\<close>,
  is not among the sources. By the specification the rows of the ground motion values
  are processed strictly in order, from row 0, against consecutive rows of the
  epsilons: it applies the function to each row in order and collects the results in an
  array; the first call that raises ends it.
\<close>

fun numpy_map ::
  "('s \<Rightarrow> 'a \<Rightarrow> (error + 'b) \<times> 's) \<Rightarrow> 'a list \<Rightarrow> 's \<Rightarrow> (error + 'b list) \<times> 's" where
  "numpy_map f [] st = (Inr [], st)"
| "numpy_map f (x # xs) st =
     (case f st x of
        (Inl e, st1) \<Rightarrow> (Inl e, st1)
      | (Inr y, st1) \<Rightarrow>
          (case numpy_map f xs st1 of
             (Inl e, st2) \<Rightarrow> (Inl e, st2)
           | (Inr ys, st2) \<Rightarrow> (Inr (y # ys), st2)))"

text \<open>
  \<^verbatim>\<open>
  def apply_to(self, ground_motion_values, epsilons):
      assert len(epsilons) == len(ground_motion_values), (
          len(epsilons), len(ground_motion_values))
      vulnerability_function = copy.copy(self)
      vulnerability_function.set_distribution(epsilons)
      return utils.numpy_map(
          vulnerability_function._apply, ground_motion_values)
  \<close>
\<close>

definition apply_to ::
  "'r library \<Rightarrow> 'r store \<Rightarrow> addr \<Rightarrow> matrix \<Rightarrow> matrix \<Rightarrow> (error + matrix) \<times> 'r store" where
  "apply_to lib st self ground_motion_values eps =
     (if length eps \<noteq> length ground_motion_values then (Inl AssertionError, st)
      else
        (case copy_copy lib st self of
           (Inl e, st1) \<Rightarrow> (Inl e, st1)
         | (Inr vulnerability_function, st1) \<Rightarrow>
             (case set_distribution st1 vulnerability_function (Some eps) of
                (Inl e, st2) \<Rightarrow> (Inl e, st2)
              | (Inr _, st2) \<Rightarrow>
                  numpy_map (\<lambda>s row. vf_apply lib s vulnerability_function row)
                    ground_motion_values st2)))"

subsection \<open>Removing plateaus\<close>

text \<open>
  \<^verbatim>\<open>
  @utils.memoized
  def strictly_increasing(self):
      imls, mlrs, covs = [], [], []

      previous_mlr = None
      for i, mlr in enumerate(self.mean_loss_ratios):
          if previous_mlr == mlr:
              continue
          else:
              mlrs.append(mlr)
              imls.append(self.imls[i])
              covs.append(self.covs[i])
              previous_mlr = mlr

      return self.__class__(
          self.id, self.imt, imls, mlrs, covs, self.distribution_name)
  \<close>
  \<open>remove_plateaus\<close> is the loop: its arguments are the mean loss ratios still to
  visit, the two arrays that are indexed, the index \<open>i\<close> and \<^verbatim>\<open>previous_mlr\<close>; it
  returns the three lists.

  Modelled from the spec: the decorator \<^verbatim>\<open>utils.memoized\<close> is not among the sources. It
  keeps the result of a call and returns it when the call is repeated with the same
  receiver; \<open>strictly_increasing\<close> is the method it decorates, that is what the first
  call on an object computes.
\<close>

fun remove_plateaus ::
  "real list \<Rightarrow> real list \<Rightarrow> real list \<Rightarrow> nat \<Rightarrow> real option
     \<Rightarrow> error + (real list \<times> real list \<times> real list)" where
  "remove_plateaus [] imls_a covs_a i previous_mlr = Inr ([], [], [])"
| "remove_plateaus (mlr # rest) imls_a covs_a i previous_mlr =
     (if previous_mlr = Some mlr then remove_plateaus rest imls_a covs_a (i + 1) previous_mlr
      else if i \<ge> length imls_a \<or> i \<ge> length covs_a then Inl IndexError
      else
        (case remove_plateaus rest imls_a covs_a (i + 1) (Some mlr) of
           Inl e \<Rightarrow> Inl e
         | Inr (is, ms, cs) \<Rightarrow> Inr (imls_a ! i # is, mlr # ms, covs_a ! i # cs)))"

definition strictly_increasing ::
  "'r library \<Rightarrow> 'r store \<Rightarrow> addr \<Rightarrow> (error + addr) \<times> 'r store" where
  "strictly_increasing lib st self =
     (case vfs st self of None \<Rightarrow> (Inl NoSuchObject, st) | Some vf \<Rightarrow>
       (case remove_plateaus (mean_loss_ratios vf) (imls vf) (covs vf) 0 None of
          Inl e \<Rightarrow> (Inl e, st)
        | Inr (is, ms, cs) \<Rightarrow>
            VulnerabilityFunction_new lib st (vf_id vf) (imt vf) is ms (Some cs)
              (distribution_name vf)))"

section \<open>Vulnerability functions: stores, values and examples\<close>

text \<open>
  The definitions of this section are not in the source: they state the properties of
  the methods. A store is well formed when nothing lives at or above its next free
  address. \<open>frame st st'\<close> says that \<open>st'\<close> is a well formed store that has every
  object of \<open>st\<close> unchanged at every address that was in use.
\<close>

definition wf_store :: "'r store \<Rightarrow> bool" where
  "wf_store st = (\<forall>a. next_addr st \<le> a \<longrightarrow> vfs st a = None \<and> dists st a = None)"

definition frame :: "'r store \<Rightarrow> 'r store \<Rightarrow> bool" where
  "frame st st' =
     (next_addr st \<le> next_addr st' \<and> wf_store st'
      \<and> (\<forall>a. a < next_addr st \<longrightarrow> vfs st' a = vfs st a \<and> dists st' a = dists st a))"

text \<open>
  The object that \<^verbatim>\<open>copy.copy\<close> and the constructor start from has the six attributes
  and nothing else; \<open>initialised\<close> is what \<^verbatim>\<open>init\<close> then sets, the distribution
  apart. A function is valid when its attributes pass the checks of the constructor.
\<close>

definition blank_copy :: "VulnerabilityFunction \<Rightarrow> VulnerabilityFunction" where
  "blank_copy vf =
     \<lparr>vf_id = vf_id vf, imt = imt vf, imls = imls vf,
      mean_loss_ratios = mean_loss_ratios vf, covs = covs vf,
      distribution_name = distribution_name vf, stddevs = None, mlr_i1d = None,
      covs_i1d = None, distribution = None\<rparr>"

definition fresh_function ::
  "string \<Rightarrow> string \<Rightarrow> real list \<Rightarrow> real list \<Rightarrow> real list \<Rightarrow> string \<Rightarrow> VulnerabilityFunction" where
  "fresh_function i t xs ms cs name =
     \<lparr>vf_id = i, imt = t, imls = xs, mean_loss_ratios = ms, covs = cs,
      distribution_name = name, stddevs = None, mlr_i1d = None, covs_i1d = None,
      distribution = None\<rparr>"

definition initialised :: "VulnerabilityFunction \<Rightarrow> VulnerabilityFunction" where
  "initialised vf =
     vf\<lparr>stddevs := (case numpy_multiply (covs vf) (mean_loss_ratios vf) of
                       Inl e \<Rightarrow> None | Inr product \<Rightarrow> Some product),
        mlr_i1d := Some (imls vf, mean_loss_ratios vf),
        covs_i1d := Some (imls vf, covs vf)\<rparr>"

definition valid_function :: "VulnerabilityFunction \<Rightarrow> bool" where
  "valid_function vf =
     (check_vulnerability_data (imls vf) (mean_loss_ratios vf) (Some (covs vf))
        (distribution_name vf)
      \<and> \<not> list_ex (\<lambda>(lr, cov). lr = 0 \<and> cov > 0) (zip (mean_loss_ratios vf) (covs vf)))"

text \<open>
  The loss matrix of \<^verbatim>\<open>apply_to\<close> as a function of the attributes of the receiver, the
  two matrices and the state of the generator, without a store: \<open>apply_rows\<close> is
  \<open>numpy_map\<close> of \<open>apply_row\<close>.
\<close>

fun apply_rows ::
  "'r library \<Rightarrow> VulnerabilityFunction \<Rightarrow> distribution \<Rightarrow> 'r \<Rightarrow> matrix
     \<Rightarrow> (error + matrix) \<times> distribution \<times> 'r" where
  "apply_rows lib vf d rng [] = (Inr [], d, rng)"
| "apply_rows lib vf d rng (row # rows) =
     (case apply_row lib vf d rng row of
        (Inl e, d1, rng1) \<Rightarrow> (Inl e, d1, rng1)
      | (Inr y, d1, rng1) \<Rightarrow>
          (case apply_rows lib vf d1 rng1 rows of
             (Inl e, d2, rng2) \<Rightarrow> (Inl e, d2, rng2)
           | (Inr ys, d2, rng2) \<Rightarrow> (Inr (y # ys), d2, rng2)))"

definition apply_to_value ::
  "'r library \<Rightarrow> VulnerabilityFunction \<Rightarrow> matrix \<Rightarrow> matrix \<Rightarrow> 'r \<Rightarrow> (error + matrix) \<times> 'r" where
  "apply_to_value lib vf gmvs eps rng =
     (if length eps \<noteq> length gmvs then (Inl AssertionError, rng)
      else if numpy_multiply (covs vf) (mean_loss_ratios vf) = Inl ValueError
      then (Inl ValueError, rng)
      else if \<not> interp1d_accepts lib (imls vf) (mean_loss_ratios vf)
              \<or> \<not> interp1d_accepts lib (imls vf) (covs vf) then (Inl ValueError, rng)
      else
        (case choose_distribution vf of
           Inl e \<Rightarrow> (Inl e, rng)
         | Inr d \<Rightarrow>
             (fst (apply_rows lib (initialised (blank_copy vf)) (set_epsilons d (Some eps)) rng gmvs),
              snd (snd (apply_rows lib (initialised (blank_copy vf)) (set_epsilons d (Some eps))
                     rng gmvs)))))"


text \<open>
  Examples. The library of the examples accepts two points or more, and its generator
  is a counter: the draw number \<open>n\<close> (from 0) is \<open>1 / (n + 2)\<close>, whatever the
  parameters are. The example function has two points, the plateau function three, of
  which the first two have the same mean loss ratio; the example stores are what the
  constructor makes of them in the empty store.
\<close>

definition counter_library :: "nat library" where
  "counter_library =
     \<lparr>interp1d_accepts = (\<lambda>x y. length x = length y \<and> 2 \<le> length x),
      random_beta = (\<lambda>s a b. (Inr (map (\<lambda>i. 1 / (real (s + i) + 2)) [0..<length a]),
                                s + length a))\<rparr>"

definition empty_store :: "nat store" where
  "empty_store = \<lparr>vfs = Map.empty, dists = Map.empty, next_addr = 0, random_state = 0\<rparr>"

definition example_function :: "string \<Rightarrow> VulnerabilityFunction" where
  "example_function name =
     \<lparr>vf_id = ''vf'', imt = ''PGA'', imls = [1/10, 1/2], mean_loss_ratios = [1/5, 3/5],
      covs = [1/10, 1/10], distribution_name = name,
      stddevs = Some [1/50, 3/50],
      mlr_i1d = Some ([1/10, 1/2], [1/5, 3/5]),
      covs_i1d = Some ([1/10, 1/2], [1/10, 1/10]),
      distribution = Some 1\<rparr>"

definition example_store :: "string \<Rightarrow> distribution \<Rightarrow> nat store" where
  "example_store name d =
     \<lparr>vfs = [0 \<mapsto> example_function name], dists = [1 \<mapsto> d], next_addr = 2,
      random_state = 0\<rparr>"

definition plateau_function :: VulnerabilityFunction where
  "plateau_function =
     \<lparr>vf_id = ''vf'', imt = ''PGA'', imls = [1/10, 1/5, 1/2],
      mean_loss_ratios = [1/5, 1/5, 3/5], covs = [1/10, 1/10, 1/10],
      distribution_name = ''LN'',
      stddevs = Some [1/50, 1/50, 3/50],
      mlr_i1d = Some ([1/10, 1/5, 1/2], [1/5, 1/5, 3/5]),
      covs_i1d = Some ([1/10, 1/5, 1/2], [1/10, 1/10, 1/10]),
      distribution = Some 1\<rparr>"

definition plateau_store :: "nat store" where
  "plateau_store =
     \<lparr>vfs = [0 \<mapsto> plateau_function], dists = [1 \<mapsto> LogNormalDistribution None 0],
      next_addr = 2, random_state = 0\<rparr>"

chapter \<open>Properties\<close>

section \<open>The survival step function\<close>

text \<open>
  Claim C4, as stated, asks the degenerate survival function to be 1 at mean 0 for a
  loss ratio that is not positive. The code returns 0 there: at mean 0 the condition
  \<^verbatim>\<open>not mean\<close> holds whatever the loss ratio is.
\<close>

theorem C4_survival_zero_mean_counterexample:
  "DegenerateDistribution_survival 0 0 0 \<noteq> 1"
  by (simp add: DegenerateDistribution_survival_def)

text \<open>
  Claim C4, amended: the degenerate survival function is 1 if the loss ratio is at most
  the mean and the mean is not zero, and 0 otherwise; at mean 0 it is 0 for every loss
  ratio, as the comment in the lognormal sibling says. The lognormal survival function
  with standard deviation 0 is the same step function.
\<close>

theorem C4_survival_step:
  "DegenerateDistribution_survival loss_ratio mean stddev =
     (if loss_ratio \<le> mean \<and> mean \<noteq> 0 then 1 else 0)
   \<and> DegenerateDistribution_survival loss_ratio 0 stddev = 0
   \<and> LogNormalDistribution_survival sf loss_ratio mean 0 =
       Inr (DegenerateDistribution_survival loss_ratio mean stddev)"
  by (auto simp: DegenerateDistribution_survival_def LogNormalDistribution_survival_def)

theorem C4_survival_step_witness:
  "DegenerateDistribution_survival (1/2) 1 0 = 1
   \<and> DegenerateDistribution_survival 2 1 0 = 0
   \<and> DegenerateDistribution_survival (-1) 0 0 = 0"
  using C4_survival_step [of "1/2" 1 0] C4_survival_step [of 2 1 0]
    C4_survival_step [of "-1" 0 0]
  by simp

section \<open>Inverting a loss curve\<close>

subsection \<open>The bisection\<close>

lemma bisect_right_loop_unfold:
  "bisect_right_loop a x lo hi =
     (if lo < hi then
        (if flt_lt x (a ! ((lo + hi) div 2)) then bisect_right_loop a x lo ((lo + hi) div 2)
         else bisect_right_loop a x ((lo + hi) div 2 + 1) hi)
      else lo)"
  by (subst bisect_right_loop.simps) (simp add: Let_def)

lemma bisect_right_loop_never_less:
  "lo \<le> hi \<Longrightarrow> (\<forall>i. lo \<le> i \<and> i < hi \<longrightarrow> \<not> flt_lt x (a ! i)) \<Longrightarrow>
   bisect_right_loop a x lo hi = hi"
proof (induction "hi - lo" arbitrary: lo hi rule: less_induct)
  case less
  show ?case
  proof (cases "lo < hi")
    case False
    with less.prems show ?thesis by (subst bisect_right_loop_unfold) simp
  next
    case True
    let ?mid = "(lo + hi) div 2"
    from True have m: "lo \<le> ?mid" "?mid < hi" by auto
    with less.prems have nl: "\<not> flt_lt x (a ! ?mid)" by blast
    have "bisect_right_loop a x (?mid + 1) hi = hi"
      using less.hyps [of hi "?mid + 1"] less.prems m by auto
    with nl True show ?thesis by (subst bisect_right_loop_unfold) simp
  qed
qed

lemma bisect_right_loop_sorted:
  assumes "sorted xs"
  shows "lo \<le> hi \<Longrightarrow> hi \<le> length xs \<Longrightarrow> (\<forall>i<lo. xs ! i \<le> x) \<Longrightarrow>
         (\<forall>i. hi \<le> i \<and> i < length xs \<longrightarrow> x < xs ! i) \<Longrightarrow>
         lo \<le> bisect_right_loop (map Fin xs) (Fin x) lo hi
         \<and> bisect_right_loop (map Fin xs) (Fin x) lo hi \<le> hi
         \<and> (\<forall>i < bisect_right_loop (map Fin xs) (Fin x) lo hi. xs ! i \<le> x)
         \<and> (\<forall>i. bisect_right_loop (map Fin xs) (Fin x) lo hi \<le> i \<and> i < length xs \<longrightarrow> x < xs ! i)"
proof (induction "hi - lo" arbitrary: lo hi rule: less_induct)
  case less
  show ?case
  proof (cases "lo < hi")
    case False
    with less.prems show ?thesis by (subst (1 2 3 4) bisect_right_loop_unfold) simp
  next
    case True
    let ?mid = "(lo + hi) div 2"
    from True less.prems have m: "lo \<le> ?mid" "?mid < hi" "?mid < length xs" by auto
    show ?thesis
    proof (cases "x < xs ! ?mid")
      case lt: True
      have above: "\<forall>i. ?mid \<le> i \<and> i < length xs \<longrightarrow> x < xs ! i"
      proof (intro allI impI)
        fix i assume "?mid \<le> i \<and> i < length xs"
        then have "xs ! ?mid \<le> xs ! i" using assms by (simp add: sorted_nth_mono)
        with lt show "x < xs ! i" by simp
      qed
      have ih: "lo \<le> bisect_right_loop (map Fin xs) (Fin x) lo ?mid
         \<and> bisect_right_loop (map Fin xs) (Fin x) lo ?mid \<le> ?mid
         \<and> (\<forall>i < bisect_right_loop (map Fin xs) (Fin x) lo ?mid. xs ! i \<le> x)
         \<and> (\<forall>i. bisect_right_loop (map Fin xs) (Fin x) lo ?mid \<le> i \<and> i < length xs \<longrightarrow> x < xs ! i)"
        using less.hyps [of ?mid lo] m less.prems above True by auto
      have eq: "bisect_right_loop (map Fin xs) (Fin x) lo hi =
                bisect_right_loop (map Fin xs) (Fin x) lo ?mid"
        using True lt m by (subst bisect_right_loop_unfold) simp
      from ih m show ?thesis unfolding eq by auto
    next
      case ge: False
      have below: "\<forall>i < ?mid + 1. xs ! i \<le> x"
      proof (intro allI impI)
        fix i assume "i < ?mid + 1"
        then have "xs ! i \<le> xs ! ?mid" using assms m by (simp add: sorted_nth_mono)
        with ge show "xs ! i \<le> x" by simp
      qed
      have ih: "?mid + 1 \<le> bisect_right_loop (map Fin xs) (Fin x) (?mid + 1) hi
         \<and> bisect_right_loop (map Fin xs) (Fin x) (?mid + 1) hi \<le> hi
         \<and> (\<forall>i < bisect_right_loop (map Fin xs) (Fin x) (?mid + 1) hi. xs ! i \<le> x)
         \<and> (\<forall>i. bisect_right_loop (map Fin xs) (Fin x) (?mid + 1) hi \<le> i \<and> i < length xs \<longrightarrow> x < xs ! i)"
        using less.hyps [of hi "?mid + 1"] m less.prems below True by auto
      have eq: "bisect_right_loop (map Fin xs) (Fin x) lo hi =
                bisect_right_loop (map Fin xs) (Fin x) (?mid + 1) hi"
        using True ge m by (subst bisect_right_loop_unfold) simp
      from ih m show ?thesis unfolding eq by auto
    qed
  qed
qed

lemma bisect_right_sorted:
  assumes "sorted xs"
  shows "bisect_right (map Fin xs) (Fin x) \<le> length xs
         \<and> (\<forall>i < bisect_right (map Fin xs) (Fin x). xs ! i \<le> x)
         \<and> (\<forall>i. bisect_right (map Fin xs) (Fin x) \<le> i \<and> i < length xs \<longrightarrow> x < xs ! i)"
  using bisect_right_loop_sorted [OF assms, of 0 "length xs" x]
  by (simp add: bisect_right_def)

lemma take2_drop:
  "Suc j < length xs \<Longrightarrow> take 2 (drop j xs) = [xs ! j, xs ! Suc j]"
proof -
  assume a: "Suc j < length xs"
  then have "drop j xs = xs ! j # drop (Suc j) xs" by (simp add: Cons_nth_drop_Suc)
  moreover from a have "drop (Suc j) xs = xs ! Suc j # drop (Suc (Suc j)) xs"
    by (simp add: Cons_nth_drop_Suc)
  ultimately show ?thesis by (simp add: numeral_2_eq_2)
qed

lemma py_max_foldl_Fin:
  "foldl (\<lambda>m y. if flt_lt m y then y else m) (Fin a) (map Fin ys) = Fin (fold max ys a)"
proof (induction ys arbitrary: a)
  case Nil
  then show ?case by simp
next
  case (Cons y ys)
  show ?case
  proof (cases "a < y")
    case True
    then have "max y a = y" by simp
    with True Cons [of y] show ?thesis by simp
  next
    case False
    then have "max y a = a" by simp
    with False Cons [of a] show ?thesis by simp
  qed
qed

lemma py_max_Fin:
  "xs \<noteq> [] \<Longrightarrow> py_max (map Fin xs) = Inr (Fin (Max (set xs)))"
proof -
  assume "xs \<noteq> []"
  then obtain a ys where xs: "xs = a # ys" by (cases xs) auto
  have "Max (set (a # ys)) = fold max ys a" by (rule Max.set_eq_fold)
  with xs show ?thesis by (simp add: py_max_foldl_Fin del: set_simps)
qed

subsection \<open>Reading finite curves\<close>

lemma py_index_first: "xs \<noteq> [] \<Longrightarrow> py_index xs 0 = Inr (hd xs)"
  by (cases xs) (simp_all add: py_index_def)

lemma py_index_last: "xs \<noteq> [] \<Longrightarrow> py_index xs (-1) = Inr (last xs)"
proof -
  assume ne: "xs \<noteq> []"
  have "nat (int (length xs) - 1) = length xs - 1" by linarith
  moreover from ne have "Suc 0 \<le> length xs" by (cases xs) simp_all
  ultimately show ?thesis using ne by (simp add: py_index_def last_conv_nth)
qed

lemma py_in_Fin: "py_in (Fin x) (map Fin xs) = (x \<in> set xs)"
  by (induction xs) (auto simp: py_in_def)

lemma py_in_all_NaN: "\<forall>y \<in> set xs. y = NaN \<Longrightarrow> \<not> py_in x xs"
  by (induction xs) (auto simp: py_in_def)

lemma matches_Fin:
  "map fst (filter (\<lambda>(loss, poe). flt_eq (Fin p) poe) (zip (map Fin ls) (map Fin ps))) =
   map Fin (map fst (filter (\<lambda>(loss, poe). poe = p) (zip ls ps)))"
proof (induction ls arbitrary: ps)
  case Nil
  then show ?case by simp
next
  case (Cons l ls)
  then show ?case by (cases ps) auto
qed

lemma matches_set:
  "length ls = length ps \<Longrightarrow>
   set (map fst (filter (\<lambda>(loss, poe). poe = p) (zip ls ps))) =
   {ls ! i | i. i < length ps \<and> ps ! i = p}"
  by (auto simp: set_zip image_iff)

lemma slice_pair:
  assumes "1 \<le> k" "k < length xs"
  shows "(if k = 1 then py_slice xs (-2) None
          else py_slice xs (- int k - 1) (Some (- int k + 1))) =
         [xs ! (length xs - k - 1), xs ! (length xs - k)]"
proof -
  have S: "Suc (length xs - k - 1) = length xs - k" using assms by simp
  have "take 2 (drop (length xs - k - 1) xs) = [xs ! (length xs - k - 1), xs ! (length xs - k)]"
    using take2_drop [of "length xs - k - 1" xs] assms S by simp
  moreover have "k = 1 \<Longrightarrow> py_slice xs (-2) None = take 2 (drop (length xs - k - 1) xs)"
  proof -
    assume k: "k = 1"
    have lo: "slice_bound (length xs) (- 2) = length xs - k - 1"
      using assms k by (auto simp: slice_bound_def)
    have "length xs - (length xs - k - 1) = 2" using assms k by simp
    with lo show ?thesis by (simp add: py_slice_def Let_def)
  qed
  moreover have "k \<noteq> 1 \<Longrightarrow> py_slice xs (- int k - 1) (Some (- int k + 1)) =
      take 2 (drop (length xs - k - 1) xs)"
  proof -
    assume "k \<noteq> 1"
    with assms have k: "2 \<le> k" by simp
    have lo: "slice_bound (length xs) (- int k - 1) = length xs - k - 1"
      using assms by (auto simp: slice_bound_def)
    have hi: "slice_bound (length xs) (- int k + 1) = length xs - k + 1"
      using assms k by (auto simp: slice_bound_def)
    have "length xs - k + 1 - (length xs - k - 1) = 2" using assms by simp
    with lo hi show ?thesis by (simp add: py_slice_def Let_def)
  qed
  ultimately show ?thesis by auto
qed

lemma interpolate_between_Fin:
  "x2 \<noteq> x1 \<Longrightarrow>
   interpolate_between (Fin x1) (Fin x2) (Fin y1) (Fin y2) (Fin p) =
   Inr (Fin ((y2 - y1) / (x2 - x1) * (p - x1) + y1))"
  by (simp add: interpolate_between_def)

subsection \<open>The extremes of a sorted curve\<close>

lemma sorted_last_Max:
  assumes "xs \<noteq> []" "sorted xs"
  shows "last xs = Max (set (xs :: real list))"
proof (rule Max_eqI [symmetric])
  show "finite (set xs)" by simp
  show "last xs \<in> set xs" using assms by simp
  fix y assume "y \<in> set xs"
  then obtain i where i: "i < length xs" "xs ! i = y" by (auto simp: in_set_conv_nth)
  have "xs ! i \<le> xs ! (length xs - 1)"
    using sorted_nth_mono [OF assms(2), of i "length xs - 1"] i(1) by simp
  with i assms show "y \<le> last xs" by (simp add: last_conv_nth)
qed

lemma sorted_hd_Min:
  assumes "xs \<noteq> []" "sorted xs"
  shows "hd xs = Min (set (xs :: real list))"
proof (rule Min_eqI [symmetric])
  show "finite (set xs)" by simp
  show "hd xs \<in> set xs" using assms by simp
  fix y assume "y \<in> set xs"
  then obtain i where i: "i < length xs" "xs ! i = y" by (auto simp: in_set_conv_nth)
  have "xs ! 0 \<le> xs ! i"
    using sorted_nth_mono [OF assms(2), of 0 i] i(1) by simp
  with i assms show "hd xs \<le> y" by (simp add: hd_conv_nth)
qed

lemma curve_extremes:
  assumes "ps \<noteq> []" "sorted (rev ps)"
  shows "hd ps = Max (set (ps :: real list)) \<and> last ps = Min (set ps)"
  using sorted_last_Max [of "rev ps"] sorted_hd_Min [of "rev ps"] assms
  by (simp add: hd_rev last_rev)

subsection \<open>The four cases\<close>

lemma clr_case4:
  assumes ne: "ps \<noteq> []" and len: "length ls = length ps"
    and sps: "sorted (rev ps)"
    and nhi: "\<not> pr > hd ps" and nlo: "\<not> pr < last ps" and nin: "pr \<notin> set ps"
  defines "k \<equiv> bisect_right (rev (map Fin ps)) (Fin pr)"
  defines "j \<equiv> length ps - k - 1"
  shows "1 \<le> k \<and> k < length ps \<and> ps ! (j + 1) < pr \<and> pr < ps ! j
    \<and> conditional_loss_ratio (map Fin ls) (map Fin ps) (Fin pr) =
        Inr (Fin ((ls ! (j + 1) - ls ! j) / (ps ! (j + 1) - ps ! j) * (pr - ps ! j) + ls ! j))"
proof -
  let ?n = "length ps"
  have kdef: "k = bisect_right (map Fin (rev ps)) (Fin pr)" by (simp add: k_def rev_map)
  from bisect_right_sorted [OF sps, of pr]
  have kn: "k \<le> ?n" and below: "\<forall>i<k. rev ps ! i \<le> pr"
    and above: "\<forall>i. k \<le> i \<and> i < ?n \<longrightarrow> pr < rev ps ! i"
    by (simp_all add: kdef)
  from ne have n0: "0 < ?n" by simp
  have r0: "rev ps ! 0 = last ps" using ne by (simp add: rev_nth last_conv_nth)
  have rl: "rev ps ! (?n - 1) = hd ps" using ne by (simp add: rev_nth hd_conv_nth)
  have k1: "1 \<le> k"
  proof (rule ccontr)
    assume "\<not> 1 \<le> k"
    then have "k = 0" by simp
    with above n0 have "pr < rev ps ! 0" by blast
    with r0 nlo show False by simp
  qed
  have k2: "k < ?n"
  proof (rule ccontr)
    assume "\<not> k < ?n"
    with kn have "k = ?n" by simp
    with below n0 have "rev ps ! (?n - 1) \<le> pr" by simp
    with rl nhi have "pr = hd ps" by simp
    with ne nin show False by simp
  qed
  have j1: "j + 1 = ?n - k" using k1 k2 by (simp add: j_def)
  have pj: "ps ! j = rev ps ! k" using k2 by (simp add: rev_nth j_def)
  have pj1: "ps ! (j + 1) = rev ps ! (k - 1)"
  proof -
    have "rev ps ! (k - 1) = ps ! (?n - Suc (k - 1))" using k1 k2 by (simp add: rev_nth)
    moreover have "?n - Suc (k - 1) = j + 1" using k1 k2 j1 by simp
    ultimately show ?thesis by simp
  qed
  from above k2 pj have up: "pr < ps ! j" by simp
  have "rev ps ! (k - 1) \<le> pr" using below k1 by simp
  moreover have "rev ps ! (k - 1) \<in> set ps"
  proof -
    have "k - 1 < length (rev ps)" using k1 k2 by simp
    then have "rev ps ! (k - 1) \<in> set (rev ps)" by (rule nth_mem)
    then show ?thesis by simp
  qed
  ultimately have down: "ps ! (j + 1) < pr" using nin pj1 by (metis order_le_less)
  have kne: "bisect_right (rev (map Fin ps)) (Fin pr) \<noteq> ?n" using k2 by (simp add: k_def)
  have sl_p: "(if k = 1 then py_slice (map Fin ps) (-2) None
          else py_slice (map Fin ps) (- int k - 1) (Some (- int k + 1))) =
         [Fin (ps ! j), Fin (ps ! (j + 1))]"
    using slice_pair [of k "map Fin ps"] k1 k2 j1 by (simp add: j_def)
  have sl_l: "(if k = 1 then py_slice (map Fin ls) (-2) None
          else py_slice (map Fin ls) (- int k - 1) (Some (- int k + 1))) =
         [Fin (ls ! j), Fin (ls ! (j + 1))]"
    using slice_pair [of k "map Fin ls"] k1 k2 j1 len by (simp add: j_def)
  have ne_x: "ps ! (j + 1) \<noteq> ps ! j" using up down by simp
  have first: "py_index (map Fin ps) 0 = Inr (Fin (hd ps))"
    using ne by (simp add: py_index_first hd_map)
  have lst: "py_index (map Fin ps) (-1) = Inr (Fin (last ps))"
    using ne by (simp add: py_index_last last_map)
  have "conditional_loss_ratio (map Fin ls) (map Fin ps) (Fin pr) =
        interpolate_between (Fin (ps ! j)) (Fin (ps ! (j + 1))) (Fin (ls ! j)) (Fin (ls ! (j + 1))) (Fin pr)"
  proof (cases "k = 1")
    case True
    with sl_p sl_l have a: "py_slice (map Fin ps) (-2) None = [Fin (ps ! j), Fin (ps ! (j + 1))]"
      and b: "py_slice (map Fin ls) (-2) None = [Fin (ls ! j), Fin (ls ! (j + 1))]" by simp_all
    from True have k': "bisect_right (rev (map Fin ps)) (Fin pr) = 1" by (simp add: k_def)
    from k2 True have n1: "?n \<noteq> 1" by simp
    show ?thesis
      unfolding conditional_loss_ratio_def Let_def first lst
      using nhi nlo nin n1 by (simp add: flt_gt_def py_in_Fin k' a b del: One_nat_def)
  next
    case False
    with sl_p sl_l have a: "py_slice (map Fin ps) (- int k - 1) (Some (- int k + 1)) = [Fin (ps ! j), Fin (ps ! (j + 1))]"
      and b: "py_slice (map Fin ls) (- int k - 1) (Some (- int k + 1)) = [Fin (ls ! j), Fin (ls ! (j + 1))]" by simp_all
    have a': "py_slice (map Fin ps) (- int k - 1) (Some (1 - int k)) = [Fin (ps ! j), Fin (ps ! (j + 1))]"
      using a by simp
    have b': "py_slice (map Fin ls) (- int k - 1) (Some (1 - int k)) = [Fin (ls ! j), Fin (ls ! (j + 1))]"
      using b by simp
    show ?thesis
      unfolding conditional_loss_ratio_def Let_def first lst k_def [symmetric]
      using nhi nlo nin k2 False by (simp add: flt_gt_def py_in_Fin a' b' del: One_nat_def)
  qed
  with ne_x have "conditional_loss_ratio (map Fin ls) (map Fin ps) (Fin pr) =
      Inr (Fin ((ls ! (j + 1) - ls ! j) / (ps ! (j + 1) - ps ! j) * (pr - ps ! j) + ls ! j))"
    by (simp add: interpolate_between_Fin)
  with k1 k2 up down show ?thesis by simp
qed

lemma clr_case3:
  assumes ne: "ps \<noteq> []" and len: "length ls = length ps"
    and nhi: "\<not> pr > hd ps" and nlo: "\<not> pr < last ps" and isin: "pr \<in> set ps"
  shows "conditional_loss_ratio (map Fin ls) (map Fin ps) (Fin pr) =
        Inr (Fin (Max {ls ! i | i. i < length ps \<and> ps ! i = pr}))"
proof -
  have first: "py_index (map Fin ps) 0 = Inr (Fin (hd ps))"
    using ne by (simp add: py_index_first hd_map)
  have lst: "py_index (map Fin ps) (-1) = Inr (Fin (last ps))"
    using ne by (simp add: py_index_last last_map)
  let ?m = "map fst (filter (\<lambda>(loss, poe). poe = pr) (zip ls ps))"
  have ms: "set ?m = {ls ! i | i. i < length ps \<and> ps ! i = pr}"
    using len by (rule matches_set)
  from isin obtain i where "i < length ps" "ps ! i = pr" by (auto simp: in_set_conv_nth)
  then have "ls ! i \<in> {ls ! i | i. i < length ps \<and> ps ! i = pr}" by blast
  with ms have mne: "?m \<noteq> []" by (metis empty_iff empty_set)
  have ml: "matching_losses (map Fin ls) (map Fin ps) (Fin pr) = Inr (map Fin ?m)"
    using len by (simp add: matching_losses_def matches_Fin)
  have "py_max (map Fin ?m) = Inr (Fin (Max (set ?m)))" using mne by (rule py_max_Fin)
  with ms have pm: "py_max (map Fin ?m) = Inr (Fin (Max {ls ! i | i. i < length ps \<and> ps ! i = pr}))"
    by simp
  show ?thesis
    unfolding conditional_loss_ratio_def Let_def first lst
    using nhi nlo isin by (simp add: flt_gt_def py_in_Fin ml pm del: map_map)
qed

lemma clr_case1:
  assumes ne: "ps \<noteq> []" and hi: "pr > hd ps"
  shows "conditional_loss_ratio ls (map Fin ps) (Fin pr) = Inr (Fin 0)"
proof -
  have first: "py_index (map Fin ps) 0 = Inr (Fin (hd ps))"
    using ne by (simp add: py_index_first hd_map)
  show ?thesis unfolding conditional_loss_ratio_def Let_def first
    using hi by (simp add: flt_gt_def)
qed

lemma clr_case2:
  assumes ne: "ps \<noteq> []" "ls \<noteq> []" and nhi: "\<not> pr > hd ps" and lo: "pr < last ps"
  shows "conditional_loss_ratio (map Fin ls) (map Fin ps) (Fin pr) = Inr (Fin (last ls))"
proof -
  have first: "py_index (map Fin ps) 0 = Inr (Fin (hd ps))"
    using ne by (simp add: py_index_first hd_map)
  have lst: "py_index (map Fin ps) (-1) = Inr (Fin (last ps))"
    using ne by (simp add: py_index_last last_map)
  have lstl: "py_index (map Fin ls) (-1) = Inr (Fin (last ls))"
    using ne by (simp add: py_index_last last_map)
  show ?thesis unfolding conditional_loss_ratio_def Let_def first lst
    using nhi lo by (simp add: flt_gt_def lstl)
qed

subsection \<open>The curve inversion, case by case\<close>

text \<open>
  Claim C1: on a curve of finite numbers with as many loss ratios as PoEs, at least
  one, and PoEs that do not increase, \<^verbatim>\<open>conditional_loss_ratio\<close> returns, in this
  order of priority: 0 when the probability exceeds the first (largest) PoE; the last
  (largest) loss ratio when it is below the last (smallest) PoE; the largest loss ratio
  among the entries whose PoE equals it, when there is one; and otherwise the linear
  interpolation between the points \<open>j\<close> and \<open>j + 1\<close> of the curve, where \<open>k\<close> is the
  right bisection of the reversed PoEs and \<open>j = n - k - 1\<close>. These two points bracket
  the probability, and for \<open>k = 1\<close> they are the last two points of the curve. The
  first PoE is the largest and the last one the smallest, and the last loss ratio is
  the largest when the loss ratios do not decrease.
\<close>

theorem C1_conditional_loss_ratio_cases:
  assumes "ps \<noteq> []" and "length ls = length ps" and "sorted (rev ps)"
  shows "conditional_loss_ratio (map Fin ls) (map Fin ps) (Fin pr) =
     (if pr > hd ps then Inr (Fin 0)
      else if pr < last ps then Inr (Fin (last ls))
      else if pr \<in> set ps then Inr (Fin (Max {ls ! i | i. i < length ps \<and> ps ! i = pr}))
      else
        (let k = bisect_right (rev (map Fin ps)) (Fin pr); j = length ps - k - 1
         in Inr (Fin ((ls ! (j + 1) - ls ! j) / (ps ! (j + 1) - ps ! j) * (pr - ps ! j)
                      + ls ! j))))
   \<and> (\<not> pr > hd ps \<and> \<not> pr < last ps \<and> pr \<notin> set ps \<longrightarrow>
        (let k = bisect_right (rev (map Fin ps)) (Fin pr); j = length ps - k - 1
         in 1 \<le> k \<and> k < length ps \<and> ps ! (j + 1) < pr \<and> pr < ps ! j))
   \<and> hd ps = Max (set ps) \<and> last ps = Min (set ps)
   \<and> (sorted ls \<longrightarrow> last ls = Max (set ls))"
proof -
  from assms have lne: "ls \<noteq> []" by auto
  have ext: "hd ps = Max (set ps) \<and> last ps = Min (set ps)
      \<and> (sorted ls \<longrightarrow> last ls = Max (set ls))"
    using curve_extremes [OF assms(1,3)] sorted_last_Max [OF lne] by blast
  have main: "conditional_loss_ratio (map Fin ls) (map Fin ps) (Fin pr) =
     (if pr > hd ps then Inr (Fin 0)
      else if pr < last ps then Inr (Fin (last ls))
      else if pr \<in> set ps then Inr (Fin (Max {ls ! i | i. i < length ps \<and> ps ! i = pr}))
      else
        (let k = bisect_right (rev (map Fin ps)) (Fin pr); j = length ps - k - 1
         in Inr (Fin ((ls ! (j + 1) - ls ! j) / (ps ! (j + 1) - ps ! j) * (pr - ps ! j)
                      + ls ! j))))
   \<and> (\<not> pr > hd ps \<and> \<not> pr < last ps \<and> pr \<notin> set ps \<longrightarrow>
        (let k = bisect_right (rev (map Fin ps)) (Fin pr); j = length ps - k - 1
         in 1 \<le> k \<and> k < length ps \<and> ps ! (j + 1) < pr \<and> pr < ps ! j))"
  proof (cases "pr > hd ps")
    case True
    with clr_case1 [OF assms(1) True, of "map Fin ls"] show ?thesis by simp
  next
    case nhi: False
    show ?thesis
    proof (cases "pr < last ps")
      case True
      with nhi clr_case2 [OF assms(1) lne nhi True] show ?thesis by simp
    next
      case nlo: False
      show ?thesis
      proof (cases "pr \<in> set ps")
        case True
        with nhi nlo clr_case3 [OF assms(1,2) nhi nlo True] show ?thesis by simp
      next
        case False
        with nhi nlo clr_case4 [OF assms(1,2,3) nhi nlo False] show ?thesis
          by (simp add: Let_def)
      qed
    qed
  qed
  from main ext show ?thesis by blast
qed

theorem C1_conditional_loss_ratio_witness:
  "conditional_loss_ratio (map Fin [0, 1/2, 1]) (map Fin [9/10, 1/2, 1/10]) (Fin (95/100))
     = Inr (Fin 0)
   \<and> conditional_loss_ratio (map Fin [0, 1/2, 1]) (map Fin [9/10, 1/2, 1/10]) (Fin (5/100))
     = Inr (Fin 1)
   \<and> conditional_loss_ratio (map Fin [0, 1/2, 1]) (map Fin [9/10, 1/2, 1/10]) (Fin (9/10))
     = Inr (Fin 0)
   \<and> conditional_loss_ratio (map Fin [0, 1/2, 1]) (map Fin [9/10, 1/2, 1/10]) (Fin (7/10))
     = Inr (Fin (1/4))"
proof -
  have s: "sorted (rev [9/10, 1/2, 1/10 :: real])" by simp
  have n: "[9/10, 1/2, 1/10 :: real] \<noteq> []" by simp
  have l: "length [0, 1/2, 1 :: real] = length [9/10, 1/2, 1/10 :: real]" by simp
  have m: "Max {[0, 1/2, 1 :: real] ! i | i. i < length [9/10, 1/2, 1/10 :: real]
              \<and> [9/10, 1/2, 1/10 :: real] ! i = 9/10} = 0"
  proof -
    have "{[0, 1/2, 1 :: real] ! i | i. i < length [9/10, 1/2, 1/10 :: real]
              \<and> [9/10, 1/2, 1/10 :: real] ! i = 9/10} = {0}"
      by (auto simp: less_Suc_eq nth_Cons')
    then show ?thesis by simp
  qed
  have b: "bisect_right (rev (map Fin [9/10, 1/2, 1/10])) (Fin (7/10)) = 2"
    by (simp add: bisect_right_def bisect_right_loop_unfold)
  from C1_conditional_loss_ratio_cases [OF n l s, of "95/100"]
    C1_conditional_loss_ratio_cases [OF n l s, of "5/100"]
    C1_conditional_loss_ratio_cases [OF n l s, of "9/10"]
    C1_conditional_loss_ratio_cases [OF n l s, of "7/10"]
  show ?thesis unfolding m b by (simp add: Let_def)
qed

subsection \<open>The not-a-number branch\<close>

text \<open>
  Claim C10: when the probability, a number, does not exceed the first PoE, is not below
  the last one, equals no PoE, and the right bisection of the reversed PoEs returns their
  full length, \<^verbatim>\<open>conditional_loss_ratio\<close> returns not-a-number, as a value and not as
  an error. A curve whose PoEs are all not-a-number is such an input, for every
  probability that is a number and whatever the loss ratios are.
\<close>

theorem C10_conditional_loss_ratio_nan:
  assumes "poes \<noteq> []"
  shows "(\<not> flt_gt (Fin p) (hd poes) \<and> \<not> flt_lt (Fin p) (last poes)
          \<and> \<not> py_in (Fin p) poes
          \<and> bisect_right (rev poes) (Fin p) = length poes
          \<longrightarrow> conditional_loss_ratio loss_ratios poes (Fin p) = Inr NaN)
   \<and> ((\<forall>poe \<in> set poes. poe = NaN)
          \<longrightarrow> bisect_right (rev poes) (Fin p) = length poes
            \<and> conditional_loss_ratio loss_ratios poes (Fin p) = Inr NaN)"
proof -
  let ?probability = "Fin p"
  have first: "py_index poes 0 = Inr (hd poes)" using assms by (rule py_index_first)
  have lst: "py_index poes (-1) = Inr (last poes)" using assms by (rule py_index_last)
  have path: "conditional_loss_ratio loss_ratios poes ?probability = Inr NaN"
    if "\<not> flt_gt ?probability (hd poes)" "\<not> flt_lt ?probability (last poes)"
       "\<not> py_in ?probability poes" "bisect_right (rev poes) ?probability = length poes"
    unfolding conditional_loss_ratio_def Let_def first lst using that by simp
  have nan: "bisect_right (rev poes) ?probability = length poes
      \<and> conditional_loss_ratio loss_ratios poes ?probability = Inr NaN"
    if all: "\<forall>poe \<in> set poes. poe = NaN"
  proof -
    from all assms have h: "hd poes = NaN" and l: "last poes = NaN" by simp_all
    have "\<forall>i. 0 \<le> i \<and> i < length (rev poes) \<longrightarrow> \<not> flt_lt ?probability (rev poes ! i)"
    proof (intro allI impI)
      fix i assume "0 \<le> i \<and> i < length (rev poes)"
      then have "rev poes ! i \<in> set (rev poes)" by (simp del: set_rev)
      with all have "rev poes ! i = NaN" by simp
      then show "\<not> flt_lt ?probability (rev poes ! i)" by simp
    qed
    then have b: "bisect_right (rev poes) ?probability = length poes"
      using bisect_right_loop_never_less [of 0 "length (rev poes)" ?probability "rev poes"]
      by (simp add: bisect_right_def)
    have "\<not> flt_gt ?probability (hd poes)" "\<not> flt_lt ?probability (last poes)"
      using h l by (simp_all add: flt_gt_def)
    with path py_in_all_NaN [OF all, of ?probability] b show ?thesis by simp
  qed
  from path nan show ?thesis by blast
qed

theorem C10_conditional_loss_ratio_nan_witness:
  "conditional_loss_ratio [Fin 0, Fin (1/2), Fin 1] [NaN, NaN, NaN] (Fin (3/10)) = Inr NaN
   \<and> conditional_loss_ratio [] [NaN] (Fin 1) = Inr NaN"
proof -
  have a: "[NaN, NaN, NaN] \<noteq> []" and b: "[NaN] \<noteq> []" by simp_all
  from C10_conditional_loss_ratio_nan [OF a, of "3/10" "[Fin 0, Fin (1/2), Fin 1]"]
    C10_conditional_loss_ratio_nan [OF b, of 1 "[]"]
  show ?thesis by simp
qed
section \<open>Event based loss curves\<close>

lemma linspace_nth:
  assumes "2 \<le> num"
  shows "linspace start stop num =
    Inr (map (\<lambda>i. start + real i * ((stop - start) / real (nat num - 1))) [0..<nat num])"
proof -
  let ?n = "nat num"
  from assms have n: "2 \<le> ?n" by simp
  have "(if i = ?n - 1 then stop else start + real i * ((stop - start) / real (?n - 1)))
        = start + real i * ((stop - start) / real (?n - 1))" for i
    using n by (simp add: field_simps)
  then show ?thesis using assms n by (simp add: linspace_def Let_def)
qed

lemma event_based_curve:
  assumes "loss_values \<noteq> []" and "ses_ratio > 0" and "2 \<le> curve_resolution"
  shows "event_based loss_values ses_ratio curve_resolution =
     Inr (map (\<lambda>i. real i * (Max (set loss_values) / real (nat curve_resolution - 1)))
            [0..<nat curve_resolution],
          map (\<lambda>i. 1 - exp (- real (length (filter
                  (\<lambda>v. v > real i * (Max (set loss_values) / real (nat curve_resolution - 1)))
                  loss_values)) * ses_ratio))
            [0..<nat curve_resolution])"
  using assms
  by (simp add: event_based_def numpy_max_def linspace_nth Let_def build_poes_def comp_def)

lemma evenly_spaced_ends:
  assumes "2 \<le> n"
  shows "hd (map (\<lambda>i. real i * (m / real (n - 1))) [0..<n]) = 0
       \<and> last (map (\<lambda>i. real i * (m / real (n - 1))) [0..<n]) = m"
proof -
  let ?refs = "map (\<lambda>i. real i * (m / real (n - 1))) [0..<n]"
  have h: "hd ?refs = 0" using assms by (simp add: hd_map upt_conv_Cons)
  have "?refs \<noteq> []" using assms by simp
  then have "last ?refs = ?refs ! (length ?refs - 1)" by (rule last_conv_nth)
  also have "\<dots> = ?refs ! (n - 1)" by simp
  also have "\<dots> = real (n - 1) * (m / real (n - 1))" using assms by simp
  also have "\<dots> = m" using assms by simp
  finally have "last ?refs = m" .
  with h show ?thesis by simp
qed

text \<open>
  Claim C5: for loss values that are not empty, a positive \<^verbatim>\<open>ses_ratio\<close> and a
  \<^verbatim>\<open>curve_resolution\<close> of at least 2, \<^verbatim>\<open>event_based\<close> returns \<^verbatim>\<open>curve_resolution\<close>
  reference losses, the \<open>i\<close>-th being \<open>i\<close> steps of \<open>max / (curve_resolution - 1)\<close>, from
  0 to the largest loss value, and for each reference loss the PoE
  \<open>1 - exp (- count * ses_ratio)\<close>, where \<open>count\<close> is the number of loss values strictly
  greater than it. For the loss values 0, 10, 20, 30, 40, \<^verbatim>\<open>ses_ratio\<close> 1 and resolution
  5, the PoE at the reference loss 0 is \<open>1 - exp (-4)\<close> and the PoEs do not increase.
\<close>

theorem C5_event_based_curve:
  assumes "loss_values \<noteq> []" and "ses_ratio > 0" and "2 \<le> curve_resolution"
  shows "event_based loss_values ses_ratio curve_resolution =
     Inr (map (\<lambda>i. real i * (Max (set loss_values) / real (nat curve_resolution - 1)))
            [0..<nat curve_resolution],
          map (\<lambda>i. 1 - exp (- real (length (filter
                  (\<lambda>v. v > real i * (Max (set loss_values) / real (nat curve_resolution - 1)))
                  loss_values)) * ses_ratio))
            [0..<nat curve_resolution])
   \<and> hd (map (\<lambda>i. real i * (Max (set loss_values) / real (nat curve_resolution - 1)))
            [0..<nat curve_resolution]) = 0
   \<and> last (map (\<lambda>i. real i * (Max (set loss_values) / real (nat curve_resolution - 1)))
            [0..<nat curve_resolution]) = Max (set loss_values)
   \<and> event_based [0, 10, 20, 30, 40] 1 5 =
       Inr ([0, 10, 20, 30, 40],
            [1 - exp (-4), 1 - exp (-3), 1 - exp (-2), 1 - exp (-1), 0])
   \<and> sorted (rev [1 - exp (-4), 1 - exp (-3), 1 - exp (-2), 1 - exp (-1), 0 :: real])"
proof -
  from assms(3) have n: "2 \<le> nat curve_resolution" by simp
  have m: "Max (set [0, 10, 20, 30, 40 :: real]) = 40" by simp
  have u: "[0..<5] = [0, 1, 2, 3, 4]" by (simp add: upt_rec)
  have ex: "event_based [0, 10, 20, 30, 40] 1 5 =
       Inr ([0, 10, 20, 30, 40],
            [1 - exp (-4), 1 - exp (-3), 1 - exp (-2), 1 - exp (-1), 0])"
    by (simp add: event_based_def numpy_max_def linspace_def Let_def build_poes_def m u)
  have so: "sorted (rev [1 - exp (-4), 1 - exp (-3), 1 - exp (-2), 1 - exp (-1), 0 :: real])"
    by simp
  from event_based_curve [OF assms] evenly_spaced_ends [OF n, of "Max (set loss_values)"] ex so
  show ?thesis by simp
qed

theorem C5_event_based_curve_witness:
  "event_based [3, 1] 2 2 = Inr ([0, 3], [1 - exp (-4), 0])"
proof -
  have a: "[3, 1 :: real] \<noteq> []" and b: "(2 :: real) > 0" and c: "(2 :: int) \<le> 2"
    by simp_all
  have m: "Max (set [3, 1 :: real]) = 3" by simp
  have u: "[0..<2] = [0, 1]" by (simp add: upt_rec)
  from C5_event_based_curve [OF a b c] show ?thesis unfolding m by (simp add: u)
qed

section \<open>Scenario damage\<close>

lemma call_each_length: "call_each fs x = Inr ys \<Longrightarrow> length ys = length fs"
  by (induction fs arbitrary: ys) (auto split: sum.splits)

lemma pairwise_length: "length (pairwise xs) = length xs - 1"
  by (induction xs rule: pairwise.induct) auto

lemma pairwise_diff_sum: "xs \<noteq> [] \<Longrightarrow> sum_list (pairwise_diff xs) = hd xs - last xs"
  by (induction xs rule: pairwise.induct) (auto simp: pairwise_diff_def)

lemma pairwise_diff_nonneg:
  "sorted (rev xs) \<Longrightarrow> d \<in> set (pairwise_diff xs) \<Longrightarrow> 0 \<le> d"
proof (induction xs rule: pairwise.induct)
  case (1 x y zs)
  then show ?case by (auto simp: pairwise_diff_def sorted_append)
qed (auto simp: pairwise_diff_def)

lemma pairwise_diff_nonneg_conv:
  "(\<forall>d \<in> set (pairwise_diff xs). 0 \<le> d) \<Longrightarrow> sorted (rev xs)"
proof (induction xs rule: pairwise.induct)
  case (1 x y zs)
  then have a: "y \<le> x" and s: "sorted (rev (y # zs))" by (auto simp: pairwise_diff_def)
  from s have "\<forall>z \<in> set (y # zs). z \<le> y" by (auto simp: sorted_append)
  with a have "\<forall>z \<in> set (y # zs). z \<le> x" by auto
  with s show ?case by (auto simp: sorted_append)
qed auto

text \<open>
  Claim C6, as stated, makes every damage fraction non-negative for every list of
  fragility functions. The code takes the differences of whatever the functions return:
  when the function of a lighter limit state returns the smaller probability, as here
  at the ground motion 0.3 (0.2 for the first function, 0.4 for the second), a fraction
  is negative.
\<close>

theorem C6_negative_fraction_counterexample:
  "scenario_damage
     [FragilityFunctionDiscrete_call (\<lambda>x y. length x = length y \<and> 2 \<le> length x)
        \<lparr>d_limit_state = ''slight'', d_imls = [1/10, 1/2], d_poes = [1/10, 3/10],
         d_no_damage_limit = None\<rparr>,
      FragilityFunctionDiscrete_call (\<lambda>x y. length x = length y \<and> 2 \<le> length x)
        \<lparr>d_limit_state = ''moderate'', d_imls = [1/10, 1/2], d_poes = [1/5, 3/5],
         d_no_damage_limit = None\<rparr>]
     (3/10)
   = Inr [4/5, - (1/5), 2/5]"
  by (simp add: scenario_damage_def FragilityFunctionDiscrete_call_def py_index_def
      interp1d_call_def pairwise_diff_def Let_def)

text \<open>
  Claim C6, amended: when every fragility function returns a value at the ground
  motion, \<^verbatim>\<open>scenario_damage\<close> returns the pairwise differences of the sequence made of 1,
  the \<open>M\<close> exceedance probabilities and 0; the result has \<open>M + 1\<close> entries and sums to 1;
  and its entries are all non-negative exactly when that sequence does not increase,
  that is when the probabilities lie between 0 and 1 and do not increase along the list
  of functions.
\<close>

theorem C6_scenario_damage_fractions:
  assumes "call_each fragility_functions gmv = Inr poes"
  shows "scenario_damage fragility_functions gmv = Inr (pairwise_diff (1 # poes @ [0]))
   \<and> length (pairwise_diff (1 # poes @ [0])) = length fragility_functions + 1
   \<and> sum_list (pairwise_diff (1 # poes @ [0])) = 1
   \<and> ((\<forall>d \<in> set (pairwise_diff (1 # poes @ [0])). 0 \<le> d)
        = sorted (rev (1 # poes @ [0])))"
proof -
  have a: "scenario_damage fragility_functions gmv = Inr (pairwise_diff (1 # poes @ [0]))"
    using assms by (simp add: scenario_damage_def)
  have b: "length (pairwise_diff (1 # poes @ [0])) = length fragility_functions + 1"
    using call_each_length [OF assms] by (simp add: pairwise_diff_def pairwise_length)
  have c: "sum_list (pairwise_diff (1 # poes @ [0])) = 1"
    using pairwise_diff_sum [of "1 # poes @ [0]"] by simp
  have d: "(\<forall>d \<in> set (pairwise_diff (1 # poes @ [0])). 0 \<le> d)
        = sorted (rev (1 # poes @ [0]))"
    using pairwise_diff_nonneg [of "1 # poes @ [0]"]
      pairwise_diff_nonneg_conv [of "1 # poes @ [0]"] by blast
  from a b c d show ?thesis by blast
qed

theorem C6_scenario_damage_fractions_witness:
  "scenario_damage
     [FragilityFunctionDiscrete_call (\<lambda>x y. length x = length y \<and> 2 \<le> length x)
        \<lparr>d_limit_state = ''slight'', d_imls = [1/10, 1/2], d_poes = [1/5, 3/5],
         d_no_damage_limit = None\<rparr>,
      FragilityFunctionDiscrete_call (\<lambda>x y. length x = length y \<and> 2 \<le> length x)
        \<lparr>d_limit_state = ''moderate'', d_imls = [1/10, 1/2], d_poes = [1/10, 3/10],
         d_no_damage_limit = None\<rparr>]
     (3/10)
   = Inr [3/5, 1/5, 1/5]
   \<and> sum_list [3/5, 1/5, 1/5 :: real] = 1"
proof -
  have e: "call_each
     [FragilityFunctionDiscrete_call (\<lambda>x y. length x = length y \<and> 2 \<le> length x)
        \<lparr>d_limit_state = ''slight'', d_imls = [1/10, 1/2], d_poes = [1/5, 3/5],
         d_no_damage_limit = None\<rparr>,
      FragilityFunctionDiscrete_call (\<lambda>x y. length x = length y \<and> 2 \<le> length x)
        \<lparr>d_limit_state = ''moderate'', d_imls = [1/10, 1/2], d_poes = [1/10, 3/10],
         d_no_damage_limit = None\<rparr>]
     (3/10) = Inr [2/5, 1/5]"
    by (simp add: FragilityFunctionDiscrete_call_def py_index_def interp1d_call_def Let_def)
  from C6_scenario_damage_fractions [OF e] show ?thesis
    by (simp add: pairwise_diff_def)
qed

section \<open>The mean curve\<close>

lemma weighted_sum_uniform:
  "sum_list (map2 (\<lambda>v w. f v * w) vs (replicate (length vs) c)) =
   (c :: real) * sum_list (map f vs)"
  by (induction vs) (simp_all add: algebra_simps)

lemma sum_uniform: "0 < n \<Longrightarrow> sum_list (replicate n (1 / real n)) = 1"
  by (simp add: sum_list_replicate)

lemma mean_curve_scalars_uniform:
  assumes "vs \<noteq> []"
  shows "mean_curve (Scalars vs) None = Inr (Scalar (sum_list vs / real (length vs)))"
  using assms weighted_sum_uniform [of "\<lambda>v. v" vs "1 / real (length vs)"]
  by (simp add: mean_curve_def Let_def)

lemma rect_no_ragged:
  "\<forall>row \<in> set rows. length row = d \<Longrightarrow> \<not> list_ex (\<lambda>row. length row \<noteq> d) rows"
  by (auto simp: list_ex_iff)

lemma rect_hd:
  "\<forall>row \<in> set rows. length row = d \<Longrightarrow> rows \<noteq> [] \<Longrightarrow> length (hd rows) = d"
  by (cases rows) auto

lemma mean_curve_arrays_uniform:
  assumes "rows \<noteq> []" and "\<forall>row \<in> set rows. length row = d"
  shows "mean_curve (Arrays rows) None =
     Inr (Array (map (\<lambda>j. sum_list (map (\<lambda>row. row ! j) rows) / real (length rows)) [0..<d]))"
proof -
  let ?n = "length rows"
  from assms have n: "0 < ?n" by simp
  have s: "sum_list (replicate ?n (1 / real ?n)) = 1" using n by (rule sum_uniform)
  have w: "sum_list (map2 (\<lambda>row w. row ! j * w) rows (replicate ?n (1 / real ?n)))
      = sum_list (map (\<lambda>row. row ! j) rows) / real ?n" for j
    using weighted_sum_uniform [of "\<lambda>row. row ! j" rows "1 / real ?n"] by simp
  have "numpy_average rows (replicate ?n (1 / real ?n)) =
      Inr (map (\<lambda>j. sum_list (map (\<lambda>row. row ! j) rows) / real ?n) [0..<d])"
    using rect_no_ragged [OF assms(2)] rect_hd [OF assms(2,1)]
    unfolding numpy_average_def s w by simp
  then show ?thesis using n by (simp add: mean_curve_def Let_def)
qed

lemma mean_curve_scalars_weighted:
  assumes "vs \<noteq> []" and "length ws = length vs"
  shows "mean_curve (Scalars vs) (Some ws) =
     (if \<bar>sum_list ws - 1\<bar> < 1 / 10 ^ 12
      then Inr (Scalar (sum_list (map2 (\<lambda>value weight. value * weight) vs ws)))
      else Inl AssertionError)"
proof -
  from assms have "ws \<noteq> []" by auto
  then show ?thesis using assms by (simp add: mean_curve_def Let_def)
qed

lemma mean_curve_arrays_weighted:
  assumes "rows \<noteq> []" and "\<forall>row \<in> set rows. length row = d" and "length ws = length rows"
  shows "mean_curve (Arrays rows) (Some ws) =
     (if \<bar>sum_list ws - 1\<bar> < 1 / 10 ^ 12
      then Inr (Array (map (\<lambda>j. sum_list (map2 (\<lambda>row w. row ! j * w) rows ws) / sum_list ws)
                         [0..<d]))
      else Inl AssertionError)"
proof -
  from assms have wne: "ws \<noteq> []" by auto
  show ?thesis
  proof (cases "\<bar>sum_list ws - 1\<bar> < 1 / 10 ^ 12")
    case True
    then have nz: "sum_list ws \<noteq> 0" by auto
    have "numpy_average rows ws =
       Inr (map (\<lambda>j. sum_list (map2 (\<lambda>row w. row ! j * w) rows ws) / sum_list ws) [0..<d])"
      using rect_no_ragged [OF assms(2)] rect_hd [OF assms(2,1)] assms(3) nz
      by (simp add: numpy_average_def)
    with True wne assms(1) show ?thesis by (simp add: mean_curve_def Let_def)
  next
    case False
    with wne show ?thesis by (simp add: mean_curve_def Let_def)
  qed
qed

text \<open>
  Claim C7: for values that are not empty, \<^verbatim>\<open>mean_curve\<close> without weights is the
  arithmetic mean (uniform weights \<open>1/n\<close>), of the numbers or coordinate by coordinate
  of the arrays. With one weight for each value it succeeds if and only if the weights
  sum to 1 within \<open>10\<^sup>-\<^sup>1\<^sup>2\<close> (strictly), and fails the assertion otherwise; when it
  succeeds it returns the weighted sum of the values, which the array lane divides by
  the sum of the weights.
\<close>

theorem C7_mean_curve_weights:
  assumes "vs \<noteq> []" and "length ws = length vs"
    and "rows \<noteq> []" and "\<forall>row \<in> set rows. length row = d" and "length rws = length rows"
  shows "mean_curve (Scalars vs) None = Inr (Scalar (sum_list vs / real (length vs)))
   \<and> mean_curve (Arrays rows) None =
       Inr (Array (map (\<lambda>j. sum_list (map (\<lambda>row. row ! j) rows) / real (length rows))
                     [0..<d]))
   \<and> mean_curve (Scalars vs) (Some ws) =
       (if \<bar>sum_list ws - 1\<bar> < 1 / 10 ^ 12
        then Inr (Scalar (sum_list (map2 (\<lambda>value weight. value * weight) vs ws)))
        else Inl AssertionError)
   \<and> mean_curve (Arrays rows) (Some rws) =
       (if \<bar>sum_list rws - 1\<bar> < 1 / 10 ^ 12
        then Inr (Array (map (\<lambda>j. sum_list (map2 (\<lambda>row w. row ! j * w) rows rws)
                                    / sum_list rws) [0..<d]))
        else Inl AssertionError)"
  using mean_curve_scalars_uniform [OF assms(1)]
    mean_curve_arrays_uniform [OF assms(3,4)]
    mean_curve_scalars_weighted [OF assms(1,2)]
    mean_curve_arrays_weighted [OF assms(3,4,5)]
  by blast

theorem C7_mean_curve_weights_witness:
  "mean_curve (Scalars [1, 2, 3]) None = Inr (Scalar 2)
   \<and> mean_curve (Arrays [[1, 2], [3, 5]]) None = Inr (Array [2, 7/2])
   \<and> mean_curve (Scalars [1, 2, 3]) (Some [1/2, 1/2, 1/5]) = Inl AssertionError
   \<and> mean_curve (Arrays [[1, 2], [3, 5]]) (Some [1/4, 3/4]) = Inr (Array [5/2, 17/4])"
proof -
  have a: "[1, 2, 3 :: real] \<noteq> []" and b: "length [1/2, 1/2, 1/5 :: real] = length [1, 2, 3 :: real]"
    and c: "[[1, 2], [3, 5 :: real]] \<noteq> []"
    and d: "\<forall>row \<in> set [[1, 2], [3, 5 :: real]]. length row = 2"
    and e: "length [1/4, 3/4 :: real] = length [[1, 2], [3, 5 :: real]]"
    by simp_all
  have u: "[0..<2] = [0, 1]" by (simp add: upt_rec)
  from C7_mean_curve_weights [OF a b c d e] show ?thesis by (simp add: u)
qed

section \<open>The quantile curve\<close>

lemma numpy_transpose_twice:
  assumes "\<forall>row \<in> set xs. length row = n" and "length xs = d"
  shows "numpy_transpose (numpy_transpose xs n) d = xs"
proof (rule nth_equalityI)
  show "length (numpy_transpose (numpy_transpose xs n) d) = length xs"
    using assms by (simp add: numpy_transpose_def)
next
  fix i assume "i < length (numpy_transpose (numpy_transpose xs n) d)"
  then have i: "i < d" by (simp add: numpy_transpose_def)
  with assms have len: "length (xs ! i) = n" by simp
  have "numpy_transpose (numpy_transpose xs n) d ! i = map (\<lambda>j. xs ! i ! j) [0..<n]"
    using i assms(2) by (simp add: numpy_transpose_def comp_def)
  also have "\<dots> = xs ! i" using len map_nth [of "xs ! i"] by simp
  finally show "numpy_transpose (numpy_transpose xs n) d ! i = xs ! i" .
qed

lemma map2_same:
  "map2 f (map g xs) (map h xs) = map (\<lambda>x. f (g x) (h x)) xs"
  by (induction xs) simp_all

lemma sorted_columns:
  "numpy_transpose (sort_axis0 arr d) d = map sort (numpy_transpose arr d)"
proof -
  have "\<forall>row \<in> set (map sort (numpy_transpose arr d)). length row = length arr"
    by (auto simp: numpy_transpose_def)
  moreover have "length (map sort (numpy_transpose arr d)) = d"
    by (simp add: numpy_transpose_def)
  ultimately show ?thesis unfolding sort_axis0_def by (rule numpy_transpose_twice)
qed

lemma rank_bounds:
  assumes "2 \<le> n" and "0 \<le> p" and "p \<le> 1"
  defines "aleph \<equiv> real n * p + (4 / 10 + p * (2 / 10))"
  defines "k \<equiv> \<lfloor>numpy_clip aleph 1 (real n - 1)\<rfloor>"
  shows "1 \<le> k" and "k < int n"
proof -
  from assms(1) have n1: "(1 :: real) \<le> real n - 1" by simp
  have lo: "1 \<le> numpy_clip aleph 1 (real n - 1)" using n1 by (simp add: numpy_clip_def)
  have hi: "numpy_clip aleph 1 (real n - 1) \<le> real n - 1" by (simp add: numpy_clip_def)
  from lo have "\<lfloor>1 :: real\<rfloor> \<le> k" unfolding k_def by (rule floor_mono)
  then show "1 \<le> k" by simp
  from hi have "k \<le> \<lfloor>real n - 1\<rfloor>" unfolding k_def by (rule floor_mono)
  also have "\<lfloor>real n - 1\<rfloor> = int n - 1" by linarith
  finally show "k < int n" by simp
qed

lemma quantile_curve_unweighted:
  assumes n: "2 \<le> length curves" and rect: "\<forall>row \<in> set curves. length row = d"
    and p: "0 \<le> p" "p \<le> 1"
  shows "quantile_curve curves p None =
     Inr (map (\<lambda>j. plotting_position_estimate (map (\<lambda>c. c ! j) curves) p) [0..<d])"
proof -
  let ?n = "length curves"
  let ?aleph = "real ?n * p + (4 / 10 + p * (2 / 10))"
  let ?k = "\<lfloor>numpy_clip ?aleph 1 (real ?n - 1)\<rfloor>"
  let ?gamma = "numpy_clip (?aleph - of_int ?k) 0 1"
  let ?data = "map sort (numpy_transpose curves d)"
  from n have ne: "curves \<noteq> []" by auto
  have hd: "length (hd curves) = d" using rect ne by (cases curves) auto
  have nr: "\<not> list_ex (\<lambda>row. length row \<noteq> d) curves" using rect by (auto simp: list_ex_iff)
  have rs: "reshape_rows curves = Inr (curves, d)"
    using ne hd nr by (simp add: reshape_rows_def)
  have k1: "1 \<le> ?k" and k2: "?k < int ?n" using rank_bounds [OF n p] by simp_all
  have lower: "column ?data ?n (?k - 1) = Inr (map (\<lambda>row. row ! nat (?k - 1)) ?data)"
    using k1 k2 by (simp add: column_def)
  have upper: "column ?data ?n ?k = Inr (map (\<lambda>row. row ! nat ?k) ?data)"
    using k1 k2 by (simp add: column_def)
  have comb: "map2 (\<lambda>a b. (1 - ?gamma) * a + ?gamma * b)
        (map (\<lambda>row. row ! nat (?k - 1)) ?data) (map (\<lambda>row. row ! nat ?k) ?data)
      = map (\<lambda>row. (1 - ?gamma) * row ! nat (?k - 1) + ?gamma * row ! nat ?k) ?data"
    by (rule map2_same)
  have qc: "quantile_curve curves p None =
      Inr (map (\<lambda>row. (1 - ?gamma) * row ! nat (?k - 1) + ?gamma * row ! nat ?k) ?data)"
    unfolding quantile_curve_def rs Let_def sorted_columns
    using lower upper comb by simp
  have est: "plotting_position_estimate (map (\<lambda>c. c ! j) curves) p =
      (1 - ?gamma) * sort (map (\<lambda>c. c ! j) curves) ! nat (?k - 1)
      + ?gamma * sort (map (\<lambda>c. c ! j) curves) ! nat ?k" for j
  proof -
    have kk: "real (nat ?k) = of_int ?k" using k1 by simp
    have km: "nat ?k - 1 = nat (?k - 1)" using k1 by simp
    show ?thesis
      unfolding plotting_position_estimate_def Let_def length_map
      unfolding numpy_clip_def [symmetric]
      unfolding km kk by (rule refl)
  qed
  have "map (\<lambda>row. (1 - ?gamma) * row ! nat (?k - 1) + ?gamma * row ! nat ?k) ?data
      = map (\<lambda>j. plotting_position_estimate (map (\<lambda>c. c ! j) curves) p) [0..<d]"
    by (simp add: numpy_transpose_def comp_def est)
  with qc show ?thesis by simp
qed

text \<open>
  Claim C2: for \<open>n \<ge> 2\<close> curves of one length and a quantile \<open>p\<close> between 0 and 1,
  \<^verbatim>\<open>quantile_curve\<close> without weights returns, for each coordinate on its own, the
  plotting-position estimate of that coordinate's values: with \<open>m = 0.4 + p * 0.2\<close>,
  \<open>aleph = n * p + m\<close>, \<open>k = floor (clip (aleph, 1, n - 1))\<close> and
  \<open>gamma = clip (aleph - k, 0, 1)\<close>, the value \<open>(1 - gamma) * sorted[k - 1] + gamma *
  sorted[k]\<close> of the values sorted in ascending order, \<open>k\<close> being the rank, counted from
  1, of the lower of the two values.
\<close>

theorem C2_quantile_curve_plotting_position:
  assumes "2 \<le> length curves" and "\<forall>row \<in> set curves. length row = d"
    and "0 \<le> p" and "p \<le> 1"
  shows "quantile_curve curves p None =
     Inr (map (\<lambda>j. plotting_position_estimate (map (\<lambda>c. c ! j) curves) p) [0..<d])"
  using assms by (rule quantile_curve_unweighted)

theorem C2_quantile_curve_plotting_position_witness:
  "quantile_curve [[1/10, 2/10], [3/10, 4/10]] (1/2) None = Inr [1/5, 3/10]"
proof -
  have a: "2 \<le> length [[1/10, 2/10], [3/10, 4/10 :: real]]"
    and b: "\<forall>row \<in> set [[1/10, 2/10], [3/10, 4/10 :: real]]. length row = 2"
    and c: "(0 :: real) \<le> 1/2" and d: "(1/2 :: real) \<le> 1"
    by simp_all
  have u: "[0..<2] = [0, 1]" by (simp add: upt_rec)
  from C2_quantile_curve_plotting_position [OF a b c d] show ?thesis
    by (simp add: u plotting_position_estimate_def Let_def)
qed

section \<open>Vulnerability functions: what \<^verbatim>\<open>apply_to\<close> does to the store\<close>

lemma wf_frame_refl: "wf_store st \<Longrightarrow> frame st st"
  by (simp add: frame_def)

lemma set_distribution_eq:
  assumes "vfs st c = Some vf"
  shows "set_distribution st c eps =
     (case choose_distribution vf of
        Inl e \<Rightarrow> (Inl e, st)
      | Inr d \<Rightarrow>
          (Inr (), st\<lparr>vfs := (vfs st)(c \<mapsto> vf\<lparr>distribution := Some (next_addr st)\<rparr>),
                      dists := (dists st)(next_addr st \<mapsto> set_epsilons d eps),
                      next_addr := Suc (next_addr st)\<rparr>))"
  using assms
  by (simp add: set_distribution_def new_distribution_def Let_def split: sum.splits)

lemma numpy_multiply_cases:
  "numpy_multiply xs ys = Inl ValueError \<or> (\<exists>product. numpy_multiply xs ys = Inr product)"
  by (simp add: numpy_multiply_def)

lemma init_eq:
  assumes "vfs st c = Some vf"
  shows "init lib st c =
     (if numpy_multiply (covs vf) (mean_loss_ratios vf) = Inl ValueError then (Inl ValueError, st)
      else if \<not> interp1d_accepts lib (imls vf) (mean_loss_ratios vf) then
        (Inl ValueError,
         st\<lparr>vfs := (vfs st)(c \<mapsto> vf\<lparr>stddevs := stddevs (initialised vf)\<rparr>)\<rparr>)
      else if \<not> interp1d_accepts lib (imls vf) (covs vf) then
        (Inl ValueError,
         st\<lparr>vfs := (vfs st)(c \<mapsto>
               vf\<lparr>stddevs := stddevs (initialised vf),
                  mlr_i1d := Some (imls vf, mean_loss_ratios vf)\<rparr>)\<rparr>)
      else
        (case choose_distribution vf of
           Inl e \<Rightarrow> (Inl e, st\<lparr>vfs := (vfs st)(c \<mapsto> initialised vf)\<rparr>)
         | Inr d \<Rightarrow>
             (Inr (), st\<lparr>vfs := (vfs st)(c \<mapsto> (initialised vf)\<lparr>distribution := Some (next_addr st)\<rparr>),
                         dists := (dists st)(next_addr st \<mapsto> set_epsilons d None),
                         next_addr := Suc (next_addr st)\<rparr>)))"
proof (cases "numpy_multiply (covs vf) (mean_loss_ratios vf)")
  case (Inl e)
  with numpy_multiply_cases [of "covs vf" "mean_loss_ratios vf"] have "e = ValueError" by auto
  with Inl assms show ?thesis by (simp add: init_def)
next
  case (Inr product)
  have ch: "choose_distribution (vf\<lparr>stddevs := Some product,
        mlr_i1d := Some (imls vf, mean_loss_ratios vf),
        covs_i1d := Some (imls vf, covs vf)\<rparr>) = choose_distribution vf"
    by (simp add: choose_distribution_def)
  show ?thesis
    using assms Inr
    by (simp add: init_def Let_def set_distribution_eq ch initialised_def split: sum.splits)
qed

lemma cov_for_distribution_irrelevant:
  "cov_for (vf\<lparr>distribution := x\<rparr>) xs = cov_for vf xs"
  by (simp add: cov_for_def cong: sum.case_cong option.case_cong)

lemma row_inputs_distribution_irrelevant:
  "row_inputs (vf\<lparr>distribution := x\<rparr>) xs = row_inputs vf xs"
  by (simp add: row_inputs_def cov_for_distribution_irrelevant Let_def
      cong: sum.case_cong option.case_cong)

lemma apply_row_distribution_irrelevant:
  "apply_row lib (vf\<lparr>distribution := x\<rparr>) d rng xs = apply_row lib vf d rng xs"
  by (simp add: apply_row_def row_inputs_distribution_irrelevant)

lemma apply_rows_distribution_irrelevant:
  "apply_rows lib (vf\<lparr>distribution := x\<rparr>) d rng rows = apply_rows lib vf d rng rows"
  by (induction rows arbitrary: d rng)
    (simp_all add: apply_row_distribution_irrelevant cong: sum.case_cong prod.case_cong)

lemma store_update_same:
  "dists st da = Some d \<Longrightarrow>
   st\<lparr>dists := (dists st)(da \<mapsto> d), random_state := random_state st\<rparr> = st"
proof -
  assume "dists st da = Some d"
  then have "(dists st)(da \<mapsto> d) = dists st" by (simp add: fun_upd_idem)
  then show ?thesis by simp
qed

lemma vf_apply_eq:
  assumes "vfs st c = Some vf" and "distribution vf = Some da" and "dists st da = Some d"
  shows "vf_apply lib st c xs =
     (case apply_row lib vf d (random_state st) xs of
        (r, d', rng') \<Rightarrow> (r, st\<lparr>dists := (dists st)(da \<mapsto> d'), random_state := rng'\<rparr>))"
proof (cases "row_inputs vf xs")
  case (Inl e)
  with assms store_update_same [OF assms(3)] show ?thesis
    by (simp add: vf_apply_def apply_row_def)
next
  case (Inr inputs)
  with assms show ?thesis by (simp add: vf_apply_def)
qed

lemma nested_update:
  "(\<lambda>a. if a = da then x else if a = da then y else f a) = (\<lambda>a. if a = da then x else f a)"
  by (rule ext) simp

lemma numpy_map_vf_apply:
  "vfs st c = Some vf \<Longrightarrow> distribution vf = Some da \<Longrightarrow> dists st da = Some d \<Longrightarrow>
   numpy_map (\<lambda>s row. vf_apply lib s c row) rows st =
     (fst (apply_rows lib vf d (random_state st) rows),
      st\<lparr>dists := (dists st)(da \<mapsto> fst (snd (apply_rows lib vf d (random_state st) rows))),
         random_state := snd (snd (apply_rows lib vf d (random_state st) rows))\<rparr>)"
proof (induction rows arbitrary: st d)
  case Nil
  then show ?case using store_update_same [of st da d] by (simp add: fun_upd_def)
next
  case (Cons row rows)
  obtain r1 d1 rng1 where ar: "apply_row lib vf d (random_state st) row = (r1, d1, rng1)"
    by (cases "apply_row lib vf d (random_state st) row") auto
  let ?st1 = "st\<lparr>dists := (dists st)(da \<mapsto> d1), random_state := rng1\<rparr>"
  have va: "vf_apply lib st c row = (r1, ?st1)"
    using vf_apply_eq [OF Cons.prems, of lib row] ar by simp
  show ?case
  proof (cases r1)
    case (Inl e)
    with va ar show ?thesis by (simp add: fun_upd_def)
  next
    case (Inr y)
    have p: "vfs ?st1 c = Some vf" "dists ?st1 da = Some d1" using Cons.prems by simp_all
    obtain r2 d2 rng2 where ars: "apply_rows lib vf d1 rng1 rows = (r2, d2, rng2)"
      by (cases "apply_rows lib vf d1 rng1 rows") auto
    have ih: "numpy_map (\<lambda>s row. vf_apply lib s c row) rows ?st1 =
        (r2, st\<lparr>dists := (dists st)(da \<mapsto> d2), random_state := rng2\<rparr>)"
      using Cons.IH [OF p(1) Cons.prems(2) p(2)] ars by (simp add: fun_upd_def nested_update)
    show ?thesis using va ar Inr ih ars by (cases r2) (simp_all add: fun_upd_def)
  qed
qed

lemma set_distribution_unfold:
  "set_distribution st c eps =
     (case vfs st c of None \<Rightarrow> (Inl NoSuchObject, st) | Some vf \<Rightarrow>
       (case choose_distribution vf of
          Inl e \<Rightarrow> (Inl e, st)
        | Inr d \<Rightarrow>
            (Inr (), st\<lparr>vfs := (vfs st)(c \<mapsto> vf\<lparr>distribution := Some (next_addr st)\<rparr>),
                        dists := (dists st)(next_addr st \<mapsto> set_epsilons d eps),
                        next_addr := Suc (next_addr st)\<rparr>)))"
  by (simp add: set_distribution_def new_distribution_def Let_def
      split: option.splits sum.splits)

lemma copy_copy_eq:
  assumes "vfs st self = Some vf"
  shows "copy_copy lib st self =
     (case init lib (st\<lparr>vfs := (vfs st)(next_addr st \<mapsto> blank_copy vf),
                         next_addr := Suc (next_addr st)\<rparr>) (next_addr st) of
        (Inl e, st2) \<Rightarrow> (Inl e, st2)
      | (Inr _, st2) \<Rightarrow> (Inr (next_addr st), st2))"
  using assms by (simp add: copy_copy_def new_object_def blank_copy_def)

lemma blank_copy_fields [simp]:
  "imls (blank_copy vf) = imls vf"
  "mean_loss_ratios (blank_copy vf) = mean_loss_ratios vf"
  "covs (blank_copy vf) = covs vf"
  "distribution_name (blank_copy vf) = distribution_name vf"
  "vf_id (blank_copy vf) = vf_id vf"
  "imt (blank_copy vf) = imt vf"
  by (simp_all add: blank_copy_def)

lemma choose_distribution_blank [simp]:
  "choose_distribution (blank_copy vf) = choose_distribution vf"
  "choose_distribution (initialised vf) = choose_distribution vf"
  "choose_distribution (vf\<lparr>distribution := x\<rparr>) = choose_distribution vf"
  by (simp_all add: choose_distribution_def initialised_def)

lemma apply_to_char:
  assumes wf: "wf_store st" and self: "vfs st self = Some vf"
  shows "\<exists>st'. apply_to lib st self gmvs eps =
            (fst (apply_to_value lib vf gmvs eps (random_state st)), st')
          \<and> random_state st' = snd (apply_to_value lib vf gmvs eps (random_state st))
          \<and> frame st st'"
proof (cases "length eps \<noteq> length gmvs")
  case True
  then show ?thesis using wf by (simp add: apply_to_def apply_to_value_def wf_frame_refl)
next
  case len: False
  let ?c = "next_addr st"
  let ?st1 = "st\<lparr>vfs := (vfs st)(?c \<mapsto> blank_copy vf), next_addr := Suc ?c\<rparr>"
  have s1: "vfs ?st1 ?c = Some (blank_copy vf)" by simp
  note ini = init_eq [OF s1, of lib]
  show ?thesis
  proof (cases "numpy_multiply (covs vf) (mean_loss_ratios vf) \<noteq> Inl ValueError
                \<and> interp1d_accepts lib (imls vf) (mean_loss_ratios vf)
                \<and> interp1d_accepts lib (imls vf) (covs vf)")
    case False
    then show ?thesis
      using len wf
      by (auto simp: apply_to_def apply_to_value_def copy_copy_eq [OF self] ini frame_def
          wf_store_def)
  next
    case acc: True
    show ?thesis
    proof (cases "choose_distribution vf")
      case (Inl e)
      then show ?thesis
        using len wf acc
        by (auto simp: apply_to_def apply_to_value_def copy_copy_eq [OF self] ini frame_def
            wf_store_def)
    next
      case (Inr d)
      let ?V2 = "(initialised (blank_copy vf))\<lparr>distribution := Some (Suc ?c)\<rparr>"
      let ?st2 = "?st1\<lparr>vfs := (vfs ?st1)(?c \<mapsto> ?V2),
                       dists := (dists ?st1)(Suc ?c \<mapsto> set_epsilons d None),
                       next_addr := Suc (Suc ?c)\<rparr>"
      have cc: "copy_copy lib st self = (Inr ?c, ?st2)"
        using acc Inr by (simp add: copy_copy_eq [OF self] ini)
      have s2: "vfs ?st2 ?c = Some ?V2" by simp
      let ?V3 = "?V2\<lparr>distribution := Some (Suc (Suc ?c))\<rparr>"
      let ?d3 = "set_epsilons d (Some eps)"
      let ?st3 = "?st2\<lparr>vfs := (vfs ?st2)(?c \<mapsto> ?V3),
                       dists := (dists ?st2)(Suc (Suc ?c) \<mapsto> ?d3),
                       next_addr := Suc (Suc (Suc ?c))\<rparr>"
      have sd: "set_distribution ?st2 ?c (Some eps) = (Inr (), ?st3)"
        using Inr by (simp add: set_distribution_unfold)
      have s3: "vfs ?st3 ?c = Some ?V3" "distribution ?V3 = Some (Suc (Suc ?c))"
        "dists ?st3 (Suc (Suc ?c)) = Some ?d3" by simp_all
      obtain r d' rng' where ars:
        "apply_rows lib (initialised (blank_copy vf)) ?d3 (random_state st) gmvs = (r, d', rng')"
        by (cases "apply_rows lib (initialised (blank_copy vf)) ?d3 (random_state st) gmvs") auto
      have ars3: "apply_rows lib ?V3 ?d3 (random_state ?st3) gmvs = (r, d', rng')"
        using ars by (simp add: apply_rows_distribution_irrelevant)
      let ?st4 = "?st3\<lparr>dists := (dists ?st3)(Suc (Suc ?c) \<mapsto> d'), random_state := rng'\<rparr>"
      have nm: "numpy_map (\<lambda>s row. vf_apply lib s ?c row) gmvs ?st3 = (r, ?st4)"
        using numpy_map_vf_apply [OF s3, of lib gmvs] ars3 by simp
      have at: "apply_to lib st self gmvs eps = (r, ?st4)"
        using len cc sd nm by (simp add: apply_to_def)
      have av: "apply_to_value lib vf gmvs eps (random_state st) = (r, rng')"
        using len acc Inr ars by (simp add: apply_to_value_def)
      have fr: "frame st ?st4" using wf by (auto simp: frame_def wf_store_def)
      have rs: "random_state ?st4 = rng'" by simp
      from at av fr rs show ?thesis by auto
    qed
  qed
qed



lemma apply_row_factored:
  "apply_row lib vf d rng xs =
     (case row_inputs vf xs of
        Inl e \<Rightarrow> (Inl e, d, rng)
      | Inr (means, cs, sds, idxs) \<Rightarrow>
          (case sample lib d means cs sds idxs rng of
             (Inl e, d', rng') \<Rightarrow> (Inl e, d', rng')
           | (Inr vals, d', rng') \<Rightarrow> (scatter (length xs) idxs vals, d', rng')))"
  by (simp add: apply_row_def)





lemma apply_to_result:
  assumes "wf_store st" and "vfs st self = Some vf"
  shows "fst (apply_to lib st self gmvs eps) =
           fst (apply_to_value lib vf gmvs eps (random_state st))"
    and "random_state (snd (apply_to lib st self gmvs eps)) =
           snd (apply_to_value lib vf gmvs eps (random_state st))"
    and "frame st (snd (apply_to lib st self gmvs eps))"
  using apply_to_char [OF assms, of lib gmvs eps] by auto

lemma frame_keeps:
  assumes "wf_store st" and "frame st st'"
  shows "vfs st self = Some vf \<Longrightarrow> vfs st' self = Some vf"
    and "dists st da = Some d \<Longrightarrow> dists st' da = Some d"
proof -
  assume a: "vfs st self = Some vf"
  have "self < next_addr st"
  proof (rule ccontr)
    assume "\<not> self < next_addr st"
    with assms(1) have "vfs st self = None" by (simp add: wf_store_def)
    with a show False by simp
  qed
  with assms(2) a show "vfs st' self = Some vf" by (simp add: frame_def)
next
  assume a: "dists st da = Some d"
  have "da < next_addr st"
  proof (rule ccontr)
    assume "\<not> da < next_addr st"
    with assms(1) have "dists st da = None" by (simp add: wf_store_def)
    with a show False by simp
  qed
  with assms(2) a show "dists st' da = Some d" by (simp add: frame_def)
qed

subsection \<open>The examples\<close>

text \<open>
  The example stores are what the constructor returns in the empty store.
\<close>

lemma example_built:
  "VulnerabilityFunction_new counter_library empty_store ''vf'' ''PGA'' [1/10, 1/2] [1/5, 3/5]
     (Some [1/10, 1/10]) ''BT'' = (Inr 0, example_store ''BT'' (BetaDistribution None))"
  by (simp add: VulnerabilityFunction_new_def check_vulnerability_data_def new_object_def
      init_def numpy_multiply_def set_distribution_unfold choose_distribution_def DISTRIBUTIONS_def
      counter_library_def empty_store_def example_store_def example_function_def Let_def)

lemma example_built_LN:
  "VulnerabilityFunction_new counter_library empty_store ''vf'' ''PGA'' [1/10, 1/2] [1/5, 3/5]
     (Some [1/10, 1/10]) ''LN'' = (Inr 0, example_store ''LN'' (LogNormalDistribution None 0))"
  by (simp add: VulnerabilityFunction_new_def check_vulnerability_data_def new_object_def
      init_def numpy_multiply_def set_distribution_unfold choose_distribution_def DISTRIBUTIONS_def
      counter_library_def empty_store_def example_store_def example_function_def Let_def)

lemma example_wf: "wf_store (example_store name d)"
  by (simp add: wf_store_def example_store_def)

lemma example_self: "vfs (example_store name d) 0 = Some (example_function name)"
  by (simp add: example_store_def)

lemma example_fields [simp]:
  "imls (example_function name) = [1/10, 1/2]"
  "mean_loss_ratios (example_function name) = [1/5, 3/5]"
  "covs (example_function name) = [1/10, 1/10]"
  "distribution_name (example_function name) = name"
  by (simp_all add: example_function_def)

lemma example_row:
  "row_inputs (initialised (blank_copy (example_function name))) [3/10] =
     Inr ([2/5], [1/10], [3/100], [0])"
  by (simp add: row_inputs_def initialised_def blank_copy_def example_function_def py_index_def
      interp1d_call_def interp1d_call_array_def cov_for_def Let_def)


lemma example_value_LN:
  "apply_to_value counter_library (example_function ''LN'') [[3/10]] [[0]] s =
     (Inr [[2/5 / sqrt (101/100)]], s)"
  by (simp add: apply_to_value_def counter_library_def numpy_multiply_def
      choose_distribution_def DISTRIBUTIONS_def apply_row_factored
      example_row scatter_def power2_eq_square)

lemma plateau_built:
  "VulnerabilityFunction_new counter_library empty_store ''vf'' ''PGA'' [1/10, 1/5, 1/2]
     [1/5, 1/5, 3/5] (Some [1/10, 1/10, 1/10]) ''LN'' = (Inr 0, plateau_store)"
  by (simp add: VulnerabilityFunction_new_def check_vulnerability_data_def new_object_def
      init_def numpy_multiply_def set_distribution_unfold choose_distribution_def DISTRIBUTIONS_def
      counter_library_def empty_store_def plateau_store_def plateau_function_def Let_def)

lemma plateau_valid: "valid_function plateau_function"
  by (simp add: valid_function_def check_vulnerability_data_def plateau_function_def)

lemma plateau_collapsed:
  "remove_plateaus (mean_loss_ratios plateau_function) (imls plateau_function)
     (covs plateau_function) 0 None = Inr ([1/10, 1/2], [1/5, 3/5], [1/10, 1/10])"
  by (simp add: plateau_function_def)

subsection \<open>The receiver of \<^verbatim>\<open>apply_to\<close> is left as it was\<close>

text \<open>
  Claim C9: \<^verbatim>\<open>apply_to\<close> leaves its receiver unchanged, for every pair of matrices
  and also when it raises: after the call the receiver has the attributes it had, its
  construction parameters and the reference to its distribution among them, and the
  distribution object it refers to is as it was (its epsilons and its counter). The same
  holds of every object that was in the store before the call: the copy and its two
  distribution objects live at new addresses.
\<close>

theorem C9_apply_to_frame:
  assumes "wf_store st" and "vfs st self = Some vf"
  shows "vfs (snd (apply_to lib st self gmvs eps)) self = Some vf
   \<and> (\<forall>da d. distribution vf = Some da \<and> dists st da = Some d
         \<longrightarrow> dists (snd (apply_to lib st self gmvs eps)) da = Some d)
   \<and> (\<forall>a. a < next_addr st \<longrightarrow>
         vfs (snd (apply_to lib st self gmvs eps)) a = vfs st a
       \<and> dists (snd (apply_to lib st self gmvs eps)) a = dists st a)
   \<and> wf_store (snd (apply_to lib st self gmvs eps))"
proof -
  note fr = apply_to_result(3) [OF assms, of lib gmvs eps]
  from frame_keeps [OF assms(1) fr] assms(2) fr show ?thesis
    by (auto simp: frame_def)
qed

theorem C9_apply_to_frame_witness:
  "fst (apply_to counter_library (example_store ''LN'' (LogNormalDistribution None 0)) 0
          [[3/10]] [[0]]) = Inr [[2/5 / sqrt (101/100)]]
   \<and> vfs (snd (apply_to counter_library (example_store ''LN'' (LogNormalDistribution None 0)) 0
               [[3/10]] [[0]])) 0 = Some (example_function ''LN'')
   \<and> distribution (example_function ''LN'') = Some 1
   \<and> dists (snd (apply_to counter_library (example_store ''LN'' (LogNormalDistribution None 0)) 0
                 [[3/10]] [[0]])) 1 = Some (LogNormalDistribution None 0)"
proof -
  let ?st = "example_store ''LN'' (LogNormalDistribution None 0)"
  have d: "distribution (example_function ''LN'') = Some 1"
    "dists ?st 1 = Some (LogNormalDistribution None 0)"
    by (simp_all add: example_function_def example_store_def)
  have v: "fst (apply_to counter_library ?st 0 [[3/10]] [[0]]) = Inr [[2/5 / sqrt (101/100)]]"
    using apply_to_result(1) [OF example_wf [of "''LN''" "LogNormalDistribution None 0"]
        example_self, of counter_library "[[3/10]]" "[[0]]"]
    by (simp add: example_value_LN)
  from C9_apply_to_frame [OF example_wf [of "''LN''" "LogNormalDistribution None 0"]
      example_self, of counter_library "[[3/10]]" "[[0]]"] d v
  show ?thesis by simp
qed

subsection \<open>Two runs of \<^verbatim>\<open>apply_to\<close>\<close>





section \<open>Vulnerability functions: removing plateaus twice\<close>

lemma sorted_set_iff: "xs = sorted_list_of_set (set xs) \<longleftrightarrow> sorted_wrt (<) (xs :: real list)"
proof
  assume "xs = sorted_list_of_set (set xs)"
  then have "sorted xs \<and> distinct xs"
    by (metis sorted_sorted_list_of_set distinct_sorted_list_of_set)
  then show "sorted_wrt (<) xs" by (simp add: strict_sorted_iff)
next
  assume "sorted_wrt (<) xs"
  then have "sorted xs" "distinct xs" by (simp_all add: strict_sorted_iff)
  then show "xs = sorted_list_of_set (set xs)"
    by (simp add: sorted_list_of_set.idem_if_sorted_distinct)
qed

lemma remove_plateaus_lengths:
  "remove_plateaus ms I C i p = Inr (is, ms', cs) \<Longrightarrow>
   length is = length ms' \<and> length cs = length ms'"
  by (induction ms arbitrary: i p "is" ms' cs) (auto split: if_splits sum.splits)

lemma remove_plateaus_mlrs:
  "remove_plateaus ms I C i p = Inr (is, ms', cs) \<Longrightarrow>
   ms' = (case p of None \<Rightarrow> remdups_adj ms | Some x \<Rightarrow> tl (remdups_adj (x # ms)))"
proof (induction ms arbitrary: i p "is" ms' cs)
  case Nil
  then show ?case by (simp split: option.splits)
next
  case (Cons m rest)
  show ?case
  proof (cases "p = Some m")
    case True
    with Cons.prems have "remove_plateaus rest I C (i + 1) (Some m) = Inr (is, ms', cs)" by simp
    from Cons.IH [OF this] True show ?thesis by simp
  next
    case False
    with Cons.prems obtain is1 ms1 cs1 where
      r: "remove_plateaus rest I C (i + 1) (Some m) = Inr (is1, ms1, cs1)" and m: "ms' = m # ms1"
      by (auto split: if_splits sum.splits)
    from Cons.IH [OF r] have "ms1 = tl (remdups_adj (m # rest))" by simp
    moreover have "remdups_adj (m # rest) = m # tl (remdups_adj (m # rest))"
      by (cases rest) auto
    ultimately have "ms' = remdups_adj (m # rest)" using m by simp
    with False show ?thesis by (cases p) auto
  qed
qed

lemma remove_plateaus_fixpoint:
  "distinct_adj ms \<Longrightarrow> (\<forall>x. p = Some x \<longrightarrow> ms \<noteq> [] \<longrightarrow> hd ms \<noteq> x) \<Longrightarrow>
   i + length ms \<le> length I \<Longrightarrow> i + length ms \<le> length C \<Longrightarrow>
   remove_plateaus ms I C i p =
     Inr (take (length ms) (drop i I), ms, take (length ms) (drop i C))"
proof (induction ms arbitrary: i p)
  case Nil
  then show ?case by simp
next
  case (Cons m rest)
  have ne: "p \<noteq> Some m" using Cons.prems(2) by auto
  have d: "distinct_adj rest" using Cons.prems(1) by (cases rest) auto
  have h: "\<forall>x. Some m = Some x \<longrightarrow> rest \<noteq> [] \<longrightarrow> hd rest \<noteq> x"
    using Cons.prems(1) by (cases rest) auto
  have l: "i + 1 + length rest \<le> length I" "i + 1 + length rest \<le> length C"
    using Cons.prems(3,4) by simp_all
  have i: "i < length I" "i < length C" using Cons.prems(3,4) by simp_all
  have t: "\<And>xs :: real list. i < length xs \<Longrightarrow>
      take (Suc (length rest)) (drop i xs) = xs ! i # take (length rest) (drop (Suc i) xs)"
    by (simp add: Cons_nth_drop_Suc [symmetric])
  show ?case
    using ne i Cons.IH [OF d h l] by (simp add: t)
qed

lemma remove_plateaus_returns:
  "i + length ms \<le> length I \<Longrightarrow> i + length ms \<le> length C \<Longrightarrow>
   \<exists>r. remove_plateaus ms I C i p = Inr r"
proof (induction ms arbitrary: i p)
  case Nil
  then show ?case by simp
next
  case (Cons m rest)
  have l: "i + 1 + length rest \<le> length I" "i + 1 + length rest \<le> length C"
    using Cons.prems by simp_all
  from Cons.IH [OF l, of p] Cons.IH [OF l, of "Some m"] Cons.prems
  show ?case by (auto split: sum.splits)
qed

lemma remove_plateaus_kept:
  "remove_plateaus ms I C i p = Inr (is, ms', cs) \<Longrightarrow> k < length ms' \<Longrightarrow>
   \<exists>j. i \<le> j \<and> j < i + length ms \<and> j < length I \<and> j < length C
        \<and> is ! k = I ! j \<and> ms' ! k = ms ! (j - i) \<and> cs ! k = C ! j"
proof (induction ms arbitrary: i p "is" ms' cs k)
  case Nil
  then show ?case by simp
next
  case (Cons m rest)
  show ?case
  proof (cases "p = Some m")
    case True
    with Cons.prems have "remove_plateaus rest I C (i + 1) p = Inr (is, ms', cs)" by simp
    from Cons.IH [OF this Cons.prems(2)] obtain j where
      j: "i + 1 \<le> j" "j < i + 1 + length rest" "j < length I" "j < length C"
         "is ! k = I ! j" "ms' ! k = rest ! (j - (i + 1))" "cs ! k = C ! j" by blast
    have "j - i = Suc (j - (i + 1))" using j(1) by arith
    then have "(m # rest) ! (j - i) = rest ! (j - (i + 1))" by simp
    with j show ?thesis by (intro exI [of _ j]) auto
  next
    case False
    with Cons.prems obtain is1 ms1 cs1 where
      r: "remove_plateaus rest I C (i + 1) (Some m) = Inr (is1, ms1, cs1)"
      and e: "is = I ! i # is1" "ms' = m # ms1" "cs = C ! i # cs1"
      and b: "i < length I" "i < length C"
      by (auto split: if_splits sum.splits)
    show ?thesis
    proof (cases k)
      case 0
      with e b show ?thesis by (intro exI [of _ i]) auto
    next
      case (Suc k')
      with Cons.prems(2) e have "k' < length ms1" by simp
      from Cons.IH [OF r this] obtain j where
        j: "i + 1 \<le> j" "j < i + 1 + length rest" "j < length I" "j < length C"
           "is1 ! k' = I ! j" "ms1 ! k' = rest ! (j - (i + 1))" "cs1 ! k' = C ! j" by blast
      have "j - i = Suc (j - (i + 1))" using j(1) by arith
      then have "(m # rest) ! (j - i) = rest ! (j - (i + 1))" by simp
      with j e Suc show ?thesis by (intro exI [of _ j]) auto
    qed
  qed
qed

lemma remove_plateaus_sorted:
  "remove_plateaus ms I C i p = Inr (is, ms', cs) \<Longrightarrow> sorted_wrt (<) I \<Longrightarrow>
   sorted_wrt (<) is \<and> (\<forall>x \<in> set is. \<exists>j. i \<le> j \<and> j < length I \<and> x = I ! j)"
proof (induction ms arbitrary: i p "is" ms' cs)
  case Nil
  then show ?case by simp
next
  case (Cons m rest)
  show ?case
  proof (cases "p = Some m")
    case True
    with Cons.prems have "remove_plateaus rest I C (i + 1) p = Inr (is, ms', cs)" by simp
    from Cons.IH [OF this Cons.prems(2)] have
      s: "sorted_wrt (<) is" and a: "\<forall>x \<in> set is. \<exists>j. i + 1 \<le> j \<and> j < length I \<and> x = I ! j"
      by auto
    have "\<forall>x \<in> set is. \<exists>j. i \<le> j \<and> j < length I \<and> x = I ! j"
    proof
      fix x assume "x \<in> set is"
      with a obtain j where "i + 1 \<le> j" "j < length I" "x = I ! j" by blast
      then show "\<exists>j. i \<le> j \<and> j < length I \<and> x = I ! j" by (intro exI [of _ j]) auto
    qed
    with s show ?thesis by simp
  next
    case False
    with Cons.prems obtain is1 ms1 cs1 where
      r: "remove_plateaus rest I C (i + 1) (Some m) = Inr (is1, ms1, cs1)"
      and e: "is = I ! i # is1" and b: "i < length I"
      by (auto split: if_splits sum.splits)
    from Cons.IH [OF r Cons.prems(2)] have
      s: "sorted_wrt (<) is1" and a: "\<forall>x \<in> set is1. \<exists>j. i + 1 \<le> j \<and> j < length I \<and> x = I ! j"
      by auto
    have "\<forall>x \<in> set is1. I ! i < x"
    proof
      fix x assume "x \<in> set is1"
      with a obtain j where "i + 1 \<le> j" "j < length I" "x = I ! j" by blast
      then show "I ! i < x" using sorted_wrt_nth_less [OF Cons.prems(2), of i j] by simp
    qed
    moreover have "\<forall>x \<in> set is. \<exists>j. i \<le> j \<and> j < length I \<and> x = I ! j"
    proof
      fix x assume "x \<in> set is"
      with e have "x = I ! i \<or> x \<in> set is1" by auto
      then show "\<exists>j. i \<le> j \<and> j < length I \<and> x = I ! j"
      proof
        assume "x = I ! i" with b show ?thesis by auto
      next
        assume "x \<in> set is1"
        with a obtain j where "i + 1 \<le> j" "j < length I" "x = I ! j" by blast
        then show ?thesis by (intro exI [of _ j]) auto
      qed
    qed
    ultimately show ?thesis using s e by simp
  qed
qed

lemma fresh_fields [simp]:
  "imls (fresh_function i t xs ms cs name) = xs"
  "mean_loss_ratios (fresh_function i t xs ms cs name) = ms"
  "covs (fresh_function i t xs ms cs name) = cs"
  "distribution_name (fresh_function i t xs ms cs name) = name"
  "vf_id (fresh_function i t xs ms cs name) = i"
  "imt (fresh_function i t xs ms cs name) = t"
  by (simp_all add: fresh_function_def)

lemma initialised_fields [simp]:
  "imls (initialised vf) = imls vf"
  "mean_loss_ratios (initialised vf) = mean_loss_ratios vf"
  "covs (initialised vf) = covs vf"
  "distribution_name (initialised vf) = distribution_name vf"
  "vf_id (initialised vf) = vf_id vf"
  "imt (initialised vf) = imt vf"
  by (simp_all add: initialised_def)

lemma new_unfold:
  "VulnerabilityFunction_new lib st i t xs ms (Some cs) name =
     (if \<not> check_vulnerability_data xs ms (Some cs) name then (Inl AssertionError, st)
      else if list_ex (\<lambda>(lr, cov). lr = 0 \<and> cov > 0) (zip ms cs) then (Inl ValueError, st)
      else
        (case init lib (st\<lparr>vfs := (vfs st)(next_addr st \<mapsto> fresh_function i t xs ms cs name),
                           next_addr := Suc (next_addr st)\<rparr>) (next_addr st) of
           (Inl e, st2) \<Rightarrow> (Inl e, st2)
         | (Inr _, st2) \<Rightarrow> (Inr (next_addr st), st2)))"
  by (simp add: VulnerabilityFunction_new_def new_object_def fresh_function_def)

lemma checked_name:
  "check_vulnerability_data xs ms (Some cs) name \<Longrightarrow>
   \<exists>d. choose_distribution (fresh_function i t xs ms cs name) = Inr d"
  by (auto simp: check_vulnerability_data_def choose_distribution_def DISTRIBUTIONS_def)

lemma checked_product:
  "check_vulnerability_data xs ms (Some cs) name \<Longrightarrow> numpy_multiply cs ms \<noteq> Inl ValueError"
  by (simp add: check_vulnerability_data_def numpy_multiply_def)

lemma new_returns:
  assumes "check_vulnerability_data xs ms (Some cs) name"
    and "\<not> list_ex (\<lambda>(lr, cov). lr = 0 \<and> cov > 0) (zip ms cs)"
    and "interp1d_accepts lib xs ms" and "interp1d_accepts lib xs cs"
  shows "\<exists>st1. VulnerabilityFunction_new lib st i t xs ms (Some cs) name = (Inr (next_addr st), st1)
           \<and> vfs st1 (next_addr st) =
               Some ((initialised (fresh_function i t xs ms cs name))
                       \<lparr>distribution := Some (Suc (next_addr st))\<rparr>)
           \<and> (\<forall>a. a \<noteq> next_addr st \<longrightarrow> vfs st1 a = vfs st a)"
proof -
  from checked_name [OF assms(1), of i t] obtain d where
    d: "choose_distribution (fresh_function i t xs ms cs name) = Inr d" by blast
  let ?st0 = "st\<lparr>vfs := (vfs st)(next_addr st \<mapsto> fresh_function i t xs ms cs name),
                  next_addr := Suc (next_addr st)\<rparr>"
  have s: "vfs ?st0 (next_addr st) = Some (fresh_function i t xs ms cs name)" by simp
  show ?thesis
    unfolding new_unfold init_eq [OF s] using assms d checked_product [OF assms(1)] by simp
qed

lemma new_raises:
  assumes "check_vulnerability_data xs ms (Some cs) name"
    and "\<not> list_ex (\<lambda>(lr, cov). lr = 0 \<and> cov > 0) (zip ms cs)"
    and "\<not> (interp1d_accepts lib xs ms \<and> interp1d_accepts lib xs cs)"
  shows "fst (VulnerabilityFunction_new lib st i t xs ms (Some cs) name) = Inl ValueError"
proof -
  let ?st0 = "st\<lparr>vfs := (vfs st)(next_addr st \<mapsto> fresh_function i t xs ms cs name),
                  next_addr := Suc (next_addr st)\<rparr>"
  have s: "vfs ?st0 (next_addr st) = Some (fresh_function i t xs ms cs name)" by simp
  show ?thesis
    unfolding new_unfold init_eq [OF s] using assms checked_product [OF assms(1)] by auto
qed

lemma collapsed_valid:
  assumes v: "valid_function va"
    and r: "remove_plateaus (mean_loss_ratios va) (imls va) (covs va) 0 None = Inr (xs, ms, cs)"
  shows "check_vulnerability_data xs ms (Some cs) (distribution_name va)"
    and "\<not> list_ex (\<lambda>(lr, cov). lr = 0 \<and> cov > 0) (zip ms cs)"
    and "ms = remdups_adj (mean_loss_ratios va)"
    and "length xs = length ms" and "length cs = length ms"
proof -
  from v have srt: "sorted_wrt (<) (imls va)"
    and nn: "\<forall>x \<in> set (imls va). 0 \<le> x" "\<forall>x \<in> set (mean_loss_ratios va). 0 \<le> x"
            "\<forall>x \<in> set (covs va). 0 \<le> x"
    and ln: "length (covs va) = length (imls va)" "length (mean_loss_ratios va) = length (imls va)"
    and nm: "distribution_name va = ''LN'' \<or> distribution_name va = ''BT''"
    and nz: "\<not> list_ex (\<lambda>(lr, cov). lr = 0 \<and> cov > 0) (zip (mean_loss_ratios va) (covs va))"
    by (simp_all add: valid_function_def check_vulnerability_data_def sorted_set_iff list_all_iff)
  from remove_plateaus_lengths [OF r] show len: "length xs = length ms" "length cs = length ms" by simp_all
  from remove_plateaus_mlrs [OF r] show "ms = remdups_adj (mean_loss_ratios va)" by simp
  have kept: "\<exists>j. j < length (imls va) \<and> xs ! k = imls va ! j
                  \<and> ms ! k = mean_loss_ratios va ! j \<and> cs ! k = covs va ! j"
    if "k < length ms" for k
    using remove_plateaus_kept [OF r that] ln by auto
  have a: "\<forall>x \<in> set xs. 0 \<le> x"
  proof
    fix x assume "x \<in> set xs"
    then obtain k where "k < length xs" "x = xs ! k" by (auto simp: in_set_conv_nth)
    with kept [of k] len obtain j where "j < length (imls va)" "x = imls va ! j" by auto
    with nn(1) show "0 \<le> x" by simp
  qed
  have b: "\<forall>x \<in> set ms. 0 \<le> x"
  proof
    fix x assume "x \<in> set ms"
    then obtain k where "k < length ms" "x = ms ! k" by (auto simp: in_set_conv_nth)
    with kept [of k] ln obtain j where "j < length (mean_loss_ratios va)"
      "x = mean_loss_ratios va ! j" by auto
    with nn(2) show "0 \<le> x" by simp
  qed
  have c: "\<forall>x \<in> set cs. 0 \<le> x"
  proof
    fix x assume "x \<in> set cs"
    then obtain k where "k < length cs" "x = cs ! k" by (auto simp: in_set_conv_nth)
    with kept [of k] len ln obtain j where "j < length (covs va)" "x = covs va ! j" by auto
    with nn(3) show "0 \<le> x" by simp
  qed
  from remove_plateaus_sorted [OF r srt] have "sorted_wrt (<) xs" by simp
  with a b c len nm show "check_vulnerability_data xs ms (Some cs) (distribution_name va)"
    by (simp add: check_vulnerability_data_def sorted_set_iff list_all_iff)
  show "\<not> list_ex (\<lambda>(lr, cov). lr = 0 \<and> cov > 0) (zip ms cs)"
  proof
    assume "list_ex (\<lambda>(lr, cov). lr = 0 \<and> cov > 0) (zip ms cs)"
    then obtain k where k: "k < length ms" "k < length cs" "ms ! k = 0" "cs ! k > 0"
      by (auto simp: list_ex_iff in_set_zip)
    from kept [OF k(1)] obtain j where j: "j < length (imls va)"
      "ms ! k = mean_loss_ratios va ! j" "cs ! k = covs va ! j" by auto
    have "(mean_loss_ratios va ! j, covs va ! j) \<in> set (zip (mean_loss_ratios va) (covs va))"
      using j(1) ln by (auto simp: in_set_zip)
    with k j nz show False by (auto simp: list_ex_iff)
  qed
qed

text \<open>
  The loop returns for every valid function, and every function that the constructor
  returns is valid.
\<close>

lemma valid_collapses:
  assumes "valid_function va"
  shows "\<exists>xs ms cs. remove_plateaus (mean_loss_ratios va) (imls va) (covs va) 0 None
           = Inr (xs, ms, cs)"
proof -
  from assms have "0 + length (mean_loss_ratios va) \<le> length (imls va)"
    "0 + length (mean_loss_ratios va) \<le> length (covs va)"
    by (simp_all add: valid_function_def check_vulnerability_data_def)
  from remove_plateaus_returns [OF this, of None] show ?thesis by (metis prod_cases3)
qed

lemma constructed_valid:
  assumes "VulnerabilityFunction_new lib st i t xs ms cso name = (Inr a, st1)"
  shows "\<exists>va. vfs st1 a = Some va \<and> valid_function va
           \<and> imls va = xs \<and> mean_loss_ratios va = ms
           \<and> covs va = (case cso of Some cs \<Rightarrow> cs | None \<Rightarrow> replicate (length xs) 0)
           \<and> vf_id va = i \<and> imt va = t \<and> distribution_name va = name"
proof -
  let ?cs = "case cso of Some cs \<Rightarrow> cs | None \<Rightarrow> replicate (length xs) 0"
  have same: "VulnerabilityFunction_new lib st i t xs ms cso name =
      VulnerabilityFunction_new lib st i t xs ms (Some ?cs) name"
    by (cases cso) (simp_all add: VulnerabilityFunction_new_def check_vulnerability_data_def
        list_all_iff)
  let ?st0 = "st\<lparr>vfs := (vfs st)(next_addr st \<mapsto> fresh_function i t xs ms ?cs name),
                  next_addr := Suc (next_addr st)\<rparr>"
  have s: "vfs ?st0 (next_addr st) = Some (fresh_function i t xs ms ?cs name)" by simp
  from assms have r: "VulnerabilityFunction_new lib st i t xs ms (Some ?cs) name = (Inr a, st1)"
    unfolding same .
  have ck: "check_vulnerability_data xs ms (Some ?cs) name"
    and nz: "\<not> list_ex (\<lambda>(lr, cov). lr = 0 \<and> cov > 0) (zip ms ?cs)"
    using r unfolding new_unfold by (auto split: if_splits)
  have acc: "interp1d_accepts lib xs ms \<and> interp1d_accepts lib xs ?cs"
  proof (rule ccontr)
    assume "\<not> ?thesis"
    from new_raises [OF ck nz this, of st i t] r show False by simp
  qed
  from new_returns [OF ck nz, of lib st i t] acc r
  have "vfs st1 a = Some ((initialised (fresh_function i t xs ms ?cs name))
                       \<lparr>distribution := Some (Suc (next_addr st))\<rparr>)" by auto
  with ck nz show ?thesis by (simp add: valid_function_def)
qed

lemma strictly_increasing_twice:
  assumes self: "vfs st a = Some va" and v: "valid_function va"
    and r: "remove_plateaus (mean_loss_ratios va) (imls va) (covs va) 0 None = Inr (xs, ms, cs)"
    and acc: "interp1d_accepts lib xs ms" "interp1d_accepts lib xs cs"
  shows "\<exists>b st1 vb c st2 vc.
           strictly_increasing lib st a = (Inr b, st1) \<and> vfs st1 b = Some vb
         \<and> strictly_increasing lib st1 b = (Inr c, st2) \<and> vfs st2 c = Some vc
         \<and> imls vb = xs \<and> mean_loss_ratios vb = ms \<and> covs vb = cs
         \<and> vf_id vb = vf_id va \<and> imt vb = imt va
         \<and> distribution_name vb = distribution_name va
         \<and> imls vc = imls vb \<and> mean_loss_ratios vc = mean_loss_ratios vb \<and> covs vc = covs vb
         \<and> vf_id vc = vf_id vb \<and> imt vc = imt vb
         \<and> distribution_name vc = distribution_name vb"
proof -
  note cv = collapsed_valid [OF v r]
  let ?B = "fresh_function (vf_id va) (imt va) xs ms cs (distribution_name va)"
  from new_returns [OF cv(1,2) acc, of st "vf_id va" "imt va"] obtain st1 where
    n1: "VulnerabilityFunction_new lib st (vf_id va) (imt va) xs ms (Some cs)
           (distribution_name va) = (Inr (next_addr st), st1)"
    and b1: "vfs st1 (next_addr st) =
           Some ((initialised ?B)\<lparr>distribution := Some (Suc (next_addr st))\<rparr>)"
    by blast
  let ?b = "next_addr st"
  let ?vb = "(initialised ?B)\<lparr>distribution := Some (Suc (next_addr st))\<rparr>"
  have s1: "strictly_increasing lib st a = (Inr ?b, st1)"
    using self r n1 by (simp add: strictly_increasing_def)
  have d: "distinct_adj ms" using cv(3) by simp
  have fixed: "remove_plateaus ms xs cs 0 None = Inr (xs, ms, cs)"
    using remove_plateaus_fixpoint [OF d, of None 0 xs cs] cv(4,5) by simp
  from new_returns [OF cv(1,2) acc, of st1 "vf_id va" "imt va"] obtain st2 where
    n2: "VulnerabilityFunction_new lib st1 (vf_id va) (imt va) xs ms (Some cs)
           (distribution_name va) = (Inr (next_addr st1), st2)"
    and b2: "vfs st2 (next_addr st1) =
           Some ((initialised ?B)\<lparr>distribution := Some (Suc (next_addr st1))\<rparr>)"
    by blast
  let ?vc = "(initialised ?B)\<lparr>distribution := Some (Suc (next_addr st1))\<rparr>"
  have s2: "strictly_increasing lib st1 ?b = (Inr (next_addr st1), st2)"
    using b1 fixed n2 by (simp add: strictly_increasing_def)
  show ?thesis
    by (intro exI [of _ ?b] exI [of _ st1] exI [of _ ?vb] exI [of _ "next_addr st1"]
        exI [of _ st2] exI [of _ ?vc]) (simp add: s1 b1 s2 b2)
qed

lemma strictly_increasing_refused:
  assumes self: "vfs st a = Some va" and v: "valid_function va"
    and r: "remove_plateaus (mean_loss_ratios va) (imls va) (covs va) 0 None = Inr (xs, ms, cs)"
    and acc: "\<not> (interp1d_accepts lib xs ms \<and> interp1d_accepts lib xs cs)"
  shows "fst (strictly_increasing lib st a) = Inl ValueError"
proof -
  note cv = collapsed_valid [OF v r]
  from new_raises [OF cv(1,2) acc, of st "vf_id va" "imt va"] self r
  show ?thesis by (simp add: strictly_increasing_def)
qed

text \<open>
  Claim C8: let a valid vulnerability function be given, and the three arrays that the
  loop of \<^verbatim>\<open>strictly_increasing\<close> computes from it. The mean loss ratios among them are
  those of the function with each run of equal consecutive values reduced to its first
  element, so no two consecutive ones are equal, and the loop maps the three arrays to
  themselves. If the interpolator accepts the arrays, \<^verbatim>\<open>strictly_increasing\<close> returns a
  new function with these arrays and the id, the type of intensity measure and the
  distribution name of the receiver, and \<^verbatim>\<open>strictly_increasing\<close> of that function
  returns a function with the same six attributes. If the interpolator refuses them
  (an old scipy refuses a single point), the first call raises \<^verbatim>\<open>ValueError\<close>.
\<close>

theorem C8_strictly_increasing_idempotent:
  assumes "vfs st a = Some va" and "valid_function va"
    and "remove_plateaus (mean_loss_ratios va) (imls va) (covs va) 0 None = Inr (xs, ms, cs)"
  shows "ms = remdups_adj (mean_loss_ratios va) \<and> distinct_adj ms
   \<and> remove_plateaus ms xs cs 0 None = Inr (xs, ms, cs)
   \<and> (if interp1d_accepts lib xs ms \<and> interp1d_accepts lib xs cs
       then \<exists>b st1 vb c st2 vc.
              strictly_increasing lib st a = (Inr b, st1) \<and> vfs st1 b = Some vb
            \<and> strictly_increasing lib st1 b = (Inr c, st2) \<and> vfs st2 c = Some vc
            \<and> imls vb = xs \<and> mean_loss_ratios vb = ms \<and> covs vb = cs
            \<and> vf_id vb = vf_id va \<and> imt vb = imt va
            \<and> distribution_name vb = distribution_name va
            \<and> imls vc = imls vb \<and> mean_loss_ratios vc = mean_loss_ratios vb
            \<and> covs vc = covs vb \<and> vf_id vc = vf_id vb \<and> imt vc = imt vb
            \<and> distribution_name vc = distribution_name vb
       else fst (strictly_increasing lib st a) = Inl ValueError)"
proof -
  note cv = collapsed_valid [OF assms(2,3)]
  have d: "distinct_adj ms" using cv(3) by simp
  have fixed: "remove_plateaus ms xs cs 0 None = Inr (xs, ms, cs)"
    using remove_plateaus_fixpoint [OF d, of None 0 xs cs] cv(4,5) by simp
  show ?thesis
  proof (intro conjI)
    show "ms = remdups_adj (mean_loss_ratios va)" by (rule cv(3))
    show "distinct_adj ms" by (rule d)
    show "remove_plateaus ms xs cs 0 None = Inr (xs, ms, cs)" by (rule fixed)
    show "if interp1d_accepts lib xs ms \<and> interp1d_accepts lib xs cs
       then \<exists>b st1 vb c st2 vc.
              strictly_increasing lib st a = (Inr b, st1) \<and> vfs st1 b = Some vb
            \<and> strictly_increasing lib st1 b = (Inr c, st2) \<and> vfs st2 c = Some vc
            \<and> imls vb = xs \<and> mean_loss_ratios vb = ms \<and> covs vb = cs
            \<and> vf_id vb = vf_id va \<and> imt vb = imt va
            \<and> distribution_name vb = distribution_name va
            \<and> imls vc = imls vb \<and> mean_loss_ratios vc = mean_loss_ratios vb
            \<and> covs vc = covs vb \<and> vf_id vc = vf_id vb \<and> imt vc = imt vb
            \<and> distribution_name vc = distribution_name vb
       else fst (strictly_increasing lib st a) = Inl ValueError"
    proof (cases "interp1d_accepts lib xs ms \<and> interp1d_accepts lib xs cs")
      case True
      then have acc: "interp1d_accepts lib xs ms" "interp1d_accepts lib xs cs" by simp_all
      show ?thesis unfolding if_P [OF True] by (rule strictly_increasing_twice [OF assms acc])
    next
      case False
      show ?thesis unfolding if_not_P [OF False]
        by (rule strictly_increasing_refused [OF assms False])
    qed
  qed
qed

theorem C8_strictly_increasing_idempotent_witness:
  "\<exists>b st1 vb c st2 vc.
      strictly_increasing counter_library plateau_store 0 = (Inr b, st1) \<and> vfs st1 b = Some vb
    \<and> strictly_increasing counter_library st1 b = (Inr c, st2) \<and> vfs st2 c = Some vc
    \<and> imls vb = [1/10, 1/2] \<and> mean_loss_ratios vb = [1/5, 3/5] \<and> covs vb = [1/10, 1/10]
    \<and> imls vc = [1/10, 1/2] \<and> mean_loss_ratios vc = [1/5, 3/5] \<and> covs vc = [1/10, 1/10]"
proof -
  have s: "vfs plateau_store 0 = Some plateau_function" by (simp add: plateau_store_def)
  have acc: "interp1d_accepts counter_library [1/10, 1/2] [1/5, 3/5]"
    "interp1d_accepts counter_library [1/10, 1/2] [1/10, 1/10]"
    by (simp_all add: counter_library_def)
  from C8_strictly_increasing_idempotent [OF s plateau_valid plateau_collapsed, of counter_library]
  have "\<exists>b st1 vb c st2 vc.
      strictly_increasing counter_library plateau_store 0 = (Inr b, st1) \<and> vfs st1 b = Some vb
    \<and> strictly_increasing counter_library st1 b = (Inr c, st2) \<and> vfs st2 c = Some vc
    \<and> imls vb = [1/10, 1/2] \<and> mean_loss_ratios vb = [1/5, 3/5] \<and> covs vb = [1/10, 1/10]
    \<and> vf_id vb = vf_id plateau_function \<and> imt vb = imt plateau_function
    \<and> distribution_name vb = distribution_name plateau_function
    \<and> imls vc = imls vb \<and> mean_loss_ratios vc = mean_loss_ratios vb
    \<and> covs vc = covs vb \<and> vf_id vc = vf_id vb \<and> imt vc = imt vb
    \<and> distribution_name vc = distribution_name vb"
    using acc by (simp add: plateau_function_def)
  then obtain b st1 vb c st2 vc where
    "strictly_increasing counter_library plateau_store 0 = (Inr b, st1)" "vfs st1 b = Some vb"
    "strictly_increasing counter_library st1 b = (Inr c, st2)" "vfs st2 c = Some vc"
    "imls vb = [1/10, 1/2]" "mean_loss_ratios vb = [1/5, 3/5]" "covs vb = [1/10, 1/10]"
    "imls vc = imls vb" "mean_loss_ratios vc = mean_loss_ratios vb" "covs vc = covs vb"
    by blast
  then show ?thesis by (intro exI [of _ b] exI [of _ st1] exI [of _ vb] exI [of _ c]
        exI [of _ st2] exI [of _ vc]) simp
qed
end
